theory Spec2Isabelle
  imports Main
begin

section \<open>JavaScript values\<close>

text \<open>
  The two source files (the Resources Getter and the Schema Builder) work on dynamically
  typed values.  \<open>jsval\<close> holds the values the code inspects: \<open>JNum\<close> stands for
  integer-valued numbers, \<open>JObj\<close> lists the own properties of a plain object in
  enumeration order (keys distinct), and \<open>JFun\<close> is a function object, named by an
  identifier; what calling it does is given by the environment of the getter.
\<close>

datatype jsval =
    JUndefined
  | JNull
  | JBool bool
  | JNum int
  | JStr string
  | JArr "jsval list"
  | JObj "(string \<times> jsval) list"
  | JFun nat

datatype error = TypeError | CollaboratorError string

datatype 'a promise = Resolves 'a | Rejects error

text \<open>Truthiness, as tested by \<open>if (v)\<close>, \<open>!v\<close>, \<open>a && b\<close> and \<open>a || b\<close>.\<close>

fun truthy :: "jsval \<Rightarrow> bool" where
  "truthy JUndefined = False"
| "truthy JNull = False"
| "truthy (JBool b) = b"
| "truthy (JNum n) = (n \<noteq> 0)"
| "truthy (JStr s) = (s \<noteq> [])"
| "truthy (JArr xs) = True"
| "truthy (JObj kvs) = True"
| "truthy (JFun f) = True"

text \<open>Truthiness of a property that is a string when present (\<open>None\<close> is undefined).\<close>

fun truthy_str :: "string option \<Rightarrow> bool" where
  "truthy_str None = False"
| "truthy_str (Some s) = (s \<noteq> [])"

text \<open>
  \<open>member v k\<close> is the property read \<open>v.k\<close> for the names the source reads
  (\<open>args\<close>, \<open>msg\<close>, \<open>min\<close>, \<open>len\<close>, ...): an own property of an object, undefined
  on every other value.  Reading a property of undefined or null raises a TypeError in
  JavaScript; the source reads properties only of values it has just tested truthy, so
  these two equations are never reached (lemma \<open>truthy_not_nullish\<close>).
\<close>

fun member :: "jsval \<Rightarrow> string \<Rightarrow> jsval" where
  "member (JObj kvs) k = (case map_of kvs k of None \<Rightarrow> JUndefined | Some v \<Rightarrow> v)"
| "member v k = JUndefined"

text \<open>\<open>idx v i\<close> is the indexed read \<open>v[i]\<close>, undefined out of range.\<close>

fun digit_key :: "nat \<Rightarrow> string" where
  "digit_key n = (if n = 0 then ''0'' else if n = 1 then ''1'' else ''?'')"

fun idx :: "jsval \<Rightarrow> nat \<Rightarrow> jsval" where
  "idx (JArr xs) i = (if i < length xs then xs ! i else JUndefined)"
| "idx (JStr s) i = (if i < length s then JStr [s ! i] else JUndefined)"
| "idx (JObj kvs) i = member (JObj kvs) (digit_key i)"
| "idx v i = JUndefined"

text \<open>\<open>a || b\<close>\<close>

definition js_or :: "jsval \<Rightarrow> jsval \<Rightarrow> jsval" where
  "js_or a b = (if truthy a then a else b)"

text \<open>\<open>_.isArray\<close>\<close>

fun isArray :: "jsval \<Rightarrow> bool" where
  "isArray (JArr xs) = True"
| "isArray v = False"

text \<open>String concatenation with a value that may be undefined.\<close>

fun str_of :: "string option \<Rightarrow> string" where
  "str_of None = ''undefined''"
| "str_of (Some s) = s"


section \<open>Schema Builder\<close>

subsection \<open>Input: the model's metadata\<close>

text \<open>
  The constructors of \<open>opts.sequelize\<close> that \<open>getTypeFor\<close> tests with
  \<open>instanceof\<close>.  The table itself is an input: \<open>dt c\<close> tells whether it defines the
  constructor \<open>c\<close> (\<open>x instanceof undefined\<close> raises a TypeError).
\<close>

datatype dclass =
    STRING | TEXT | UUID | ENUM | BOOLEAN | DATEONLY | DATE | INTEGER | FLOAT
  | DOUBLE_PRECISION | BIGINT | DECIMAL | JSONB | JSON | TIME

text \<open>
  The value of \<open>column.type\<close>: an object, with the tested constructors it is an instance
  of, whose own \<open>type\<close> property is falsy (\<open>Instance\<close>) or truthy (\<open>Wrapping\<close>, as for
  an array type), or a string (\<open>Literal\<close>).
\<close>

datatype coltype =
    Instance "dclass list"
  | Wrapping "dclass list" coltype
  | Literal string

record column =
  col_fieldName :: string
  col_field :: "string option"
  col_type :: "coltype option"
  col_allowNull :: jsval
  col_validate :: jsval
  col_primaryKey :: jsval
  col_autoGenerated :: jsval
  col_defaultValue :: jsval
  col_values :: jsval
  col_references :: jsval

record association =
  a_associationAccessor :: string
  a_associationType :: string
  a_target_name :: string
  a_target_attributes :: "(string \<times> column) list"
  a_targetKey :: "string option"
  a_foreignKey :: "string option"
  a_identifierField :: "string option"

record model =
  m_name :: string
  m_attributes :: "(string \<times> column) list"
  m_associations :: "(string \<times> association) list"
  m_primaryKeys :: "(string \<times> column) list"

subsection \<open>Output: the schema\<close>

text \<open>The semantic type of a field: a tag, a one-element array of a type, or undefined.\<close>

datatype stype = TUndefined | Tag string | Many stype

text \<open>
  A validation rule \<open>{type, value, message}\<close>; a key that is absent reads as
  \<open>JUndefined\<close>.
\<close>

record validation =
  v_type :: string
  v_value :: jsval
  v_message :: jsval

text \<open>A field schema; \<open>None\<close> and \<open>False\<close> stand for a key that was never set.\<close>

record field_schema =
  f_field :: string
  f_type :: stype
  f_columnName :: "string option"
  f_primaryKey :: bool
  f_enums :: "jsval option"
  f_isRequired :: bool
  f_defaultValue :: "jsval option"
  f_validations :: "validation list option"
  f_reference :: "string option"
  f_inverseOf :: "jsval option"

record schema =
  s_name :: string
  s_idField :: "string option"
  s_primaryKeys :: "string list"
  s_isCompositePrimary :: bool
  s_fields :: "field_schema list"

subsection \<open>getTypeFor\<close>

fun classes :: "coltype \<Rightarrow> dclass list" where
  "classes (Instance cs) = cs"
| "classes (Wrapping cs t) = cs"
| "classes (Literal s) = []"

text \<open>One test of the chain: \<open>column.type instanceof DataTypes.C\<close> or
  \<open>column.type === 'citext'\<close>.\<close>

datatype probe = InstanceOf dclass | IsCitext

fun run_probe :: "(dclass \<Rightarrow> bool) \<Rightarrow> coltype option \<Rightarrow> probe \<Rightarrow> error + bool" where
  "run_probe dt t (InstanceOf c) =
     (if \<not> dt c then Inl TypeError
      else Inr (case t of None \<Rightarrow> False | Some ty \<Rightarrow> c \<in> set (classes ty)))"
| "run_probe dt t IsCitext = Inr (t = Some (Literal ''citext''))"

text \<open>A disjunction of tests, evaluated left to right, stopping at the first true one.\<close>

fun probe_any :: "(dclass \<Rightarrow> bool) \<Rightarrow> coltype option \<Rightarrow> probe list \<Rightarrow> error + bool" where
  "probe_any dt t [] = Inr False"
| "probe_any dt t (p # ps) =
     (case run_probe dt t p of
        Inl e \<Rightarrow> Inl e
      | Inr True \<Rightarrow> Inr True
      | Inr False \<Rightarrow> probe_any dt t ps)"

text \<open>The branches of the \<open>if ... else if\<close> chain, in the order of the source.\<close>

definition typeBranches :: "(probe list \<times> string) list" where
  "typeBranches =
     [([InstanceOf STRING, InstanceOf TEXT, InstanceOf UUID, IsCitext], ''String''),
      ([InstanceOf ENUM], ''Enum''),
      ([InstanceOf BOOLEAN], ''Boolean''),
      ([InstanceOf DATEONLY], ''Dateonly''),
      ([InstanceOf DATE], ''Date''),
      ([InstanceOf INTEGER, InstanceOf FLOAT, InstanceOf DOUBLE_PRECISION,
        InstanceOf BIGINT, InstanceOf DECIMAL], ''Number''),
      ([InstanceOf JSONB, InstanceOf JSON], ''Json''),
      ([InstanceOf TIME], ''Time'')]"

fun firstBranch ::
  "(dclass \<Rightarrow> bool) \<Rightarrow> coltype option \<Rightarrow> (probe list \<times> string) list \<Rightarrow> error + string option"
where
  "firstBranch dt t [] = Inr None"
| "firstBranch dt t ((ps, tag) # rest) =
     (case probe_any dt t ps of
        Inl e \<Rightarrow> Inl e
      | Inr True \<Rightarrow> Inr (Some tag)
      | Inr False \<Rightarrow> firstBranch dt t rest)"

text \<open>
  The last branch reads \<open>column.type.type\<close>: a TypeError when \<open>column.type\<close> is
  undefined, a recursive call wrapped in an array when the property is truthy, and
  otherwise the function falls off its end and returns undefined.
\<close>

fun getTypeOf :: "(dclass \<Rightarrow> bool) \<Rightarrow> coltype \<Rightarrow> error + stype" where
  "getTypeOf dt (Wrapping cs inner) =
     (case firstBranch dt (Some (Wrapping cs inner)) typeBranches of
        Inl e \<Rightarrow> Inl e
      | Inr (Some tag) \<Rightarrow> Inr (Tag tag)
      | Inr None \<Rightarrow>
          (case getTypeOf dt inner of Inl e \<Rightarrow> Inl e | Inr s \<Rightarrow> Inr (Many s)))"
| "getTypeOf dt ty =
     (case firstBranch dt (Some ty) typeBranches of
        Inl e \<Rightarrow> Inl e
      | Inr (Some tag) \<Rightarrow> Inr (Tag tag)
      | Inr None \<Rightarrow> Inr TUndefined)"

definition getTypeFor :: "(dclass \<Rightarrow> bool) \<Rightarrow> coltype option \<Rightarrow> error + stype" where
  "getTypeFor dt t =
     (case t of
        None \<Rightarrow>
          (case firstBranch dt None typeBranches of
             Inl e \<Rightarrow> Inl e
           | Inr (Some tag) \<Rightarrow> Inr (Tag tag)
           | Inr None \<Rightarrow> Inl TypeError)
      | Some ty \<Rightarrow> getTypeOf dt ty)"

subsection \<open>getTypeForAssociation\<close>

definition getTypeForAssociation :: "(dclass \<Rightarrow> bool) \<Rightarrow> association \<Rightarrow> error + stype" where
  "getTypeForAssociation dt a =
     (let attribute = (case a_targetKey a of
                         None \<Rightarrow> None
                       | Some k \<Rightarrow> map_of (a_target_attributes a) k)
      in case (case attribute of
                 None \<Rightarrow> Inr (Tag ''Number'')
               | Some col \<Rightarrow> getTypeFor dt (col_type col)) of
           Inl e \<Rightarrow> Inl e
         | Inr ty \<Rightarrow>
             (if a_associationType a = ''BelongsTo'' \<or> a_associationType a = ''HasOne''
              then Inr ty
              else if a_associationType a = ''HasMany''
                      \<or> a_associationType a = ''BelongsToMany''
              then Inr (Many ty)
              else Inr TUndefined))"

subsection \<open>getValidations\<close>

text \<open>The rule pushed for a constraint \<open>c\<close> that is truthy:
  \<open>{type: t, value: c.args || c, message: c.msg}\<close>.\<close>

definition rule :: "string \<Rightarrow> jsval \<Rightarrow> validation" where
  "rule t c = \<lparr>v_type = t, v_value = js_or (member c ''args'') c, v_message = member c ''msg''\<rparr>"

definition ruleIf :: "string \<Rightarrow> jsval \<Rightarrow> validation list" where
  "ruleIf t c = (if truthy c then [rule t c] else [])"

definition lenRules :: "jsval \<Rightarrow> validation list" where
  "lenRules len =
     (if truthy len then
        (let length = js_or (member len ''args'') len in
         if truthy (idx length 0) \<and> truthy (idx length 1) then
           [\<lparr>v_type = ''is longer than'', v_value = idx length 0,
             v_message = member len ''msg''\<rparr>,
            \<lparr>v_type = ''is shorter than'', v_value = idx length 1,
             v_message = member len ''msg''\<rparr>]
         else
           [\<lparr>v_type = ''is longer than'', v_value = length,
             v_message = member len ''msg''\<rparr>])
      else [])"

text \<open>\<open>value.toString()\<close> is the built-in of the runtime, taken as the parameter
  \<open>toStr\<close>.\<close>

definition isRules :: "(jsval \<Rightarrow> string) \<Rightarrow> jsval \<Rightarrow> validation list" where
  "isRules toStr c =
     (if truthy c \<and> \<not> isArray c then
        [\<lparr>v_type = ''is like'', v_value = JStr (toStr (js_or (member c ''args'') c)),
          v_message = member c ''msg''\<rparr>]
      else [])"

definition getValidations :: "(jsval \<Rightarrow> string) \<Rightarrow> column \<Rightarrow> validation list" where
  "getValidations toStr c =
     (if col_autoGenerated c = JBool True then []
      else
        (let present =
               (if col_allowNull c = JBool False
                then [\<lparr>v_type = ''is present'', v_value = JUndefined,
                       v_message = JUndefined\<rparr>]
                else []);
             v = col_validate c
         in if \<not> truthy v then present
            else present
               @ ruleIf ''is greater than'' (member v ''min'')
               @ ruleIf ''is less than'' (member v ''max'')
               @ ruleIf ''is before'' (member v ''isBefore'')
               @ ruleIf ''is after'' (member v ''isAfter'')
               @ lenRules (member v ''len'')
               @ ruleIf ''contains'' (member v ''contains'')
               @ isRules toStr (member v ''is'')))"

definition getIsRequired :: "column \<Rightarrow> bool" where
  "getIsRequired c = (col_autoGenerated c \<noteq> JBool True \<and> col_allowNull c = JBool False)"

subsection \<open>getSchemaForColumn, getSchemaForAssociation\<close>

definition getSchemaForColumn ::
  "(dclass \<Rightarrow> bool) \<Rightarrow> (jsval \<Rightarrow> string) \<Rightarrow> model \<Rightarrow> column \<Rightarrow> error + field_schema"
where
  "getSchemaForColumn dt toStr m c =
     (case getTypeFor dt (col_type c) of
        Inl e \<Rightarrow> Inl e
      | Inr ty \<Rightarrow>
          (let validations = getValidations toStr c in
           Inr \<lparr>f_field = col_fieldName c,
                f_type = ty,
                f_columnName = col_field c,
                f_primaryKey = (col_primaryKey c = JBool True),
                f_enums = (if ty = Tag ''Enum'' then Some (col_values c) else None),
                f_isRequired = getIsRequired c,
                f_defaultValue =
                  (if col_defaultValue c \<noteq> JNull \<and> col_defaultValue c \<noteq> JUndefined
                      \<and> col_fieldName c \<notin> set (map fst (m_primaryKeys m))
                   then Some (col_defaultValue c) else None),
                f_validations = (if validations = [] then None else Some validations),
                f_reference = None,
                f_inverseOf = None\<rparr>))"

text \<open>
  The state the two loops of the builder share: the field list, the names to exclude
  and the messages given to the logger.
\<close>

record builder_state =
  b_fields :: "field_schema list"
  b_fieldNamesToExclude :: "string option list"
  b_log :: "(string \<times> error) list"

text \<open>
  \<open>getSchemaForAssociation\<close> builds the schema first (which may raise) and only then
  records the name to exclude; it returns the schema and the updated exclusion list.
\<close>

definition getSchemaForAssociation ::
  "(dclass \<Rightarrow> bool) \<Rightarrow> string option list \<Rightarrow> association
     \<Rightarrow> error + (field_schema \<times> string option list)"
where
  "getSchemaForAssociation dt excl a =
     (case getTypeForAssociation dt a of
        Inl e \<Rightarrow> Inl e
      | Inr ty \<Rightarrow>
          Inr (\<lparr>f_field = a_associationAccessor a,
                f_type = ty,
                f_columnName = None,
                f_primaryKey = False,
                f_enums = None,
                f_isRequired = False,
                f_defaultValue = None,
                f_validations = None,
                f_reference = Some (a_target_name a @ ''.'' @ str_of (a_foreignKey a)),
                f_inverseOf = Some JNull\<rparr>,
               (if a_associationType a = ''BelongsTo''
                then excl @ [a_identifierField a] else excl)))"

subsection \<open>The builder\<close>

text \<open>The body of the loop over \<open>_.values(model.attributes)\<close>, with its try/catch.\<close>

definition columnStep ::
  "(dclass \<Rightarrow> bool) \<Rightarrow> (jsval \<Rightarrow> string) \<Rightarrow> model \<Rightarrow> builder_state \<Rightarrow> column \<Rightarrow> builder_state"
where
  "columnStep dt toStr m st c =
     (if truthy (col_references c) \<and> \<not> truthy (col_primaryKey c) then st
      else case getSchemaForColumn dt toStr m c of
             Inr sch \<Rightarrow> st\<lparr>b_fields := b_fields st @ [sch]\<rparr>
           | Inl e \<Rightarrow>
               st\<lparr>b_log := b_log st @
                     [(''Cannot fetch properly column '' @ str_of (col_field c)
                         @ '' of model '' @ m_name m, e)]\<rparr>)"

text \<open>The body of the loop over \<open>_.values(model.associations)\<close>, with its try/catch.\<close>

definition associationStep ::
  "(dclass \<Rightarrow> bool) \<Rightarrow> model \<Rightarrow> builder_state \<Rightarrow> association \<Rightarrow> builder_state"
where
  "associationStep dt m st a =
     (case getSchemaForAssociation dt (b_fieldNamesToExclude st) a of
        Inr (sch, excl) \<Rightarrow>
          st\<lparr>b_fields := b_fields st @ [sch], b_fieldNamesToExclude := excl\<rparr>
      | Inl e \<Rightarrow>
          st\<lparr>b_log := b_log st @
                [(''Cannot fetch properly association '' @ a_associationAccessor a
                    @ '' of model '' @ m_name m, e)]\<rparr>)"

text \<open>The two loops: the columns first, then the associations, which is the order the
  fields have in the schema.\<close>

definition collect :: "(dclass \<Rightarrow> bool) \<Rightarrow> (jsval \<Rightarrow> string) \<Rightarrow> model \<Rightarrow> builder_state" where
  "collect dt toStr m =
     foldl (associationStep dt m)
       (foldl (columnStep dt toStr m)
          \<lparr>b_fields = [], b_fieldNamesToExclude = [], b_log = []\<rparr>
          (map snd (m_attributes m)))
       (map snd (m_associations m))"

text \<open>
  The schema the returned promise resolves to, with the messages logged on the way.
  \<open>_.remove\<close> deletes the fields for which the predicate holds.
\<close>

definition schemaBuilder ::
  "(dclass \<Rightarrow> bool) \<Rightarrow> (jsval \<Rightarrow> string) \<Rightarrow> model \<Rightarrow> schema \<times> (string \<times> error) list"
where
  "schemaBuilder dt toStr m =
     (let st = collect dt toStr m;
          primaryKeys = map fst (m_primaryKeys m);
          composite = (length (map fst (m_primaryKeys m)) > 1)
      in (\<lparr>s_name = m_name m,
           s_idField = (if composite then Some ''forestCompositePrimary''
                        else (case primaryKeys of [] \<Rightarrow> None | k # ks \<Rightarrow> Some k)),
           s_primaryKeys = primaryKeys,
           s_isCompositePrimary = composite,
           s_fields = filter (\<lambda>f. \<not> (f_columnName f \<in> set (b_fieldNamesToExclude st)
                                      \<and> \<not> f_primaryKey f)) (b_fields st)\<rparr>,
          b_log st))"


section \<open>Resources Getter\<close>

subsection \<open>Strings and arrays of the runtime\<close>

text \<open>\<open>s.split(c)\<close> for a one-character separator: never empty, \<open>''.split(c)\<close> is
  \<open>['']\<close>.\<close>

fun split_on :: "char \<Rightarrow> string \<Rightarrow> string list" where
  "split_on c [] = [[]]"
| "split_on c (x # xs) =
     (if x = c then [] # split_on c xs
      else (let r = split_on c xs in (x # hd r) # tl r))"

text \<open>\<open>s.replace(a, b)\<close> with string arguments replaces the first occurrence only.\<close>

fun replace_first :: "char \<Rightarrow> char \<Rightarrow> string \<Rightarrow> string" where
  "replace_first a b [] = []"
| "replace_first a b (x # xs) = (if x = a then b # xs else x # replace_first a b xs)"

text \<open>\<open>_.uniq\<close> keeps the first occurrence of each value; \<open>_.union\<close> is the
  concatenation made unique; \<open>_.xor\<close> of two arrays holds the values found in exactly
  one of them.\<close>

definition uniq :: "'a list \<Rightarrow> 'a list" where
  "uniq xs = rev (remdups (rev xs))"

definition union_js :: "'a list list \<Rightarrow> 'a list" where
  "union_js xss = uniq (concat xss)"

definition xor_js :: "'a list \<Rightarrow> 'a list \<Rightarrow> 'a list" where
  "xor_js xs ys = uniq (filter (\<lambda>x. x \<notin> set ys) xs @ filter (\<lambda>y. y \<notin> set xs) ys)"

text \<open>\<open>_.pick(object, names)\<close>: the properties of the object named in \<open>names\<close>.\<close>

definition pick :: "(string \<times> 'a) list \<Rightarrow> string list \<Rightarrow> (string \<times> 'a) list" where
  "pick obj names =
     concat (map (\<lambda>k. case map_of obj k of None \<Rightarrow> [] | Some v \<Rightarrow> [(k, v)]) (uniq names))"

text \<open>An array of strings converted to a string: its elements joined by commas.\<close>

fun join_comma :: "string list \<Rightarrow> string" where
  "join_comma [] = []"
| "join_comma [x] = x"
| "join_comma (x # y # ys) = x @ '','' @ join_comma (y # ys)"

subsection \<open>Request, registry entry, collaborators\<close>

text \<open>The request parameters; \<open>None\<close> is an absent key.  \<open>p_fields\<close> maps a model
  name to a comma-joined list of field names, \<open>p_filter\<close> a field or association path
  to a comma-joined list of values, in the enumeration order of the object.\<close>

record params =
  p_fields :: "(string \<times> string) list option"
  p_filter :: "(string \<times> string) list option"
  p_filterType :: "string option"
  p_sort :: "string option"
  p_search :: "string option"
  p_segment :: "string option"
  p_timezone :: "string option"

text \<open>The options of a query; \<open>None\<close> is an absent key.\<close>

record qopts =
  q_include :: jsval
  q_where :: jsval
  q_order :: "jsval option"
  q_offset :: "jsval option"
  q_limit :: "jsval option"

text \<open>
  A custom search hook \<open>field.search(opts, search)\<close> changes the options in place and may
  raise: it is a function to the changed options and the error raised, if any.  A change
  made through an object that both option sets hold (the segment's where-condition) is
  not represented.
\<close>

type_synonym hook = "qopts \<Rightarrow> string option \<Rightarrow> qopts \<times> error option"

text \<open>The registry entry \<open>Interface.Schemas.schemas[model.name]\<close>, as the getter
  reads it.\<close>

record gfield =
  gf_field :: string
  gf_search :: "hook option"

record segment =
  seg_name :: string
  seg_scope :: "string option"
  seg_where :: jsval

record rschema =
  rs_fields :: "gfield list"
  rs_searchFields :: "string list option"
  rs_segments :: "segment list option"
  rs_isCompositePrimary :: bool

type_synonym db_record = "string \<rightharpoonup> jsval"

datatype scoping = Scoped string | Unscoped

text \<open>
  The collaborators, which are not part of the two source files: the operator-value
  parser (which may raise), the search builder, the query builder (constructed from the
  model and the request), the composite-keys manager, the call of a function object
  with the request (which returns a promise), and the two queries of the backing
  collection.  Each is a function of its arguments.
\<close>

record env =
  ovp_perform :: "model \<Rightarrow> string \<Rightarrow> string \<Rightarrow> string option \<Rightarrow> error + jsval"
  searchBuilder_perform :: "model \<Rightarrow> params \<Rightarrow> string option list option \<Rightarrow> jsval"
  qb_getIncludes :: "model \<Rightarrow> string option list option \<Rightarrow> jsval"
  qb_getOrder :: "model \<Rightarrow> params \<Rightarrow> jsval"
  qb_getSkip :: "model \<Rightarrow> params \<Rightarrow> jsval"
  qb_getLimit :: "model \<Rightarrow> params \<Rightarrow> jsval"
  createCompositePrimary :: "model \<Rightarrow> rschema \<Rightarrow> db_record \<Rightarrow> jsval"
  call_function :: "nat \<Rightarrow> params \<Rightarrow> jsval promise"
  db_count :: "scoping \<Rightarrow> qopts \<Rightarrow> nat promise"
  db_findAll :: "scoping \<Rightarrow> qopts \<Rightarrow> db_record list promise"

text \<open>What the getter does to the outside, in order.\<close>

datatype event =
    SegmentWhereInvoked nat params
  | Warned string
  | ErrorLogged string error
  | CountIssued scoping qopts
  | FindAllIssued scoping qopts

text \<open>\<open>perform\<close> raises before returning, or returns a promise that is rejected or
  fulfilled with \<open>[count, records]\<close>.\<close>

datatype outcome = Threw error | Rejected error | Fulfilled nat "db_record list"

subsection \<open>fieldNamesRequested\<close>

text \<open>The computed names; \<open>None\<close> at the top is null, an element \<open>None\<close> is the
  undefined that \<open>_.keys(model.primaryKeys)[0]\<close> gives for a model without primary
  key.\<close>

definition associationsForQuery :: "params \<Rightarrow> string list" where
  "associationsForQuery params =
     map (\<lambda>(key, values). hd (split_on CHR '':'' key))
       (filter (\<lambda>(key, values). CHR '':'' \<in> set key)
          (case p_filter params of None \<Rightarrow> [] | Some flt \<Rightarrow> flt))
     @ (case p_sort params of
          None \<Rightarrow> []
        | Some sortKey \<Rightarrow>
            (if sortKey \<noteq> [] \<and> CHR ''.'' \<in> set sortKey
             then [hd (split_on CHR ''.'' sortKey)] else []))"

definition primaryKeyArray :: "model \<Rightarrow> string option list" where
  "primaryKeyArray m = [case map fst (m_primaryKeys m) of [] \<Rightarrow> None | k # ks \<Rightarrow> Some k]"

definition fieldNamesRequested :: "model \<Rightarrow> params \<Rightarrow> string option list option" where
  "fieldNamesRequested m params =
     (case p_fields params of
        None \<Rightarrow> None
      | Some fs \<Rightarrow>
          (if \<not> truthy_str (map_of fs (m_name m)) then None
           else Some (union_js
                        [primaryKeyArray m,
                         map Some (split_on CHR '','' (str_of (map_of fs (m_name m)))),
                         map Some (associationsForQuery params)])))"

subsection \<open>selectSearchFields\<close>

text \<open>
  The function narrows the local copies of the field list and of the associations, which
  nothing reads afterwards, and warns about the search fields it could not match: the
  warnings are its effect.
\<close>

definition selectSearchFields :: "rschema \<Rightarrow> model \<Rightarrow> string list \<Rightarrow> event list" where
  "selectSearchFields sch m schemaSearchFields =
     (let searchAssociationFields = filter (\<lambda>f. CHR ''.'' \<in> set f) schemaSearchFields;
          searchFields = filter (\<lambda>f. CHR ''.'' \<notin> set f) schemaSearchFields;
          fields = filter (\<lambda>f. gf_field f \<in> set schemaSearchFields) (rs_fields sch);
          searchAssociationNames =
            map (\<lambda>a. hd (split_on CHR ''.'' a)) searchAssociationFields;
          associations = pick (m_associations m) searchAssociationNames;
          fieldsSimpleNotFound = xor_js searchFields (map gf_field fields);
          fieldsAssociationNotFound =
            xor_js (map (\<lambda>a. hd (split_on CHR ''.'' a)) searchAssociationFields)
              (map fst associations)
      in (if fieldsSimpleNotFound \<noteq> []
          then [Warned (''Cannot find the fields ['' @ join_comma fieldsSimpleNotFound
                  @ ''] while searching records in model '' @ m_name m @ ''.'')]
          else [])
       @ (if fieldsAssociationNotFound \<noteq> []
          then [Warned (''Cannot find the associations [''
                  @ join_comma fieldsAssociationNotFound
                  @ ''] while searching records in model '' @ m_name m @ ''.'')]
          else []))"

subsection \<open>handleFilterParams, getWhere\<close>

text \<open>The key of a condition: an association path \<open>a:b\<close> becomes \<open>$a.b$\<close>.\<close>

definition conditionKey :: "string \<Rightarrow> string" where
  "conditionKey key =
     (if CHR '':'' \<in> set key then ''$'' @ replace_first CHR '':'' CHR ''.'' key @ ''$''
      else key)"

text \<open>The inner \<open>forEach\<close>: one condition per value; the first error of the parser
  ends it.\<close>

fun valueConditions ::
  "env \<Rightarrow> model \<Rightarrow> params \<Rightarrow> string \<Rightarrow> string list \<Rightarrow> error + jsval list"
where
  "valueConditions E m params key [] = Inr []"
| "valueConditions E m params key (v # vs) =
     (case ovp_perform E m key v (p_timezone params) of
        Inl e \<Rightarrow> Inl e
      | Inr parsed \<Rightarrow>
          (case valueConditions E m params key vs of
             Inl e \<Rightarrow> Inl e
           | Inr cs \<Rightarrow> Inr (JObj [(key, parsed)] # cs)))"

text \<open>The outer \<open>_.each\<close> over the filter map.\<close>

fun filterConditions ::
  "env \<Rightarrow> model \<Rightarrow> params \<Rightarrow> (string \<times> string) list \<Rightarrow> error + jsval list"
where
  "filterConditions E m params [] = Inr []"
| "filterConditions E m params ((key, values) # rest) =
     (case valueConditions E m params (conditionKey key) (split_on CHR '','' values) of
        Inl e \<Rightarrow> Inl e
      | Inr cs \<Rightarrow>
          (case filterConditions E m params rest of
             Inl e \<Rightarrow> Inl e
           | Inr ds \<Rightarrow> Inr (cs @ ds)))"

definition handleFilterParams :: "env \<Rightarrow> model \<Rightarrow> params \<Rightarrow> error + jsval" where
  "handleFilterParams E m params =
     (case filterConditions E m params
             (case p_filter params of None \<Rightarrow> [] | Some flt \<Rightarrow> flt) of
        Inl e \<Rightarrow> Inl e
      | Inr conditions \<Rightarrow>
          Inr (if truthy_str (p_filterType params)
               then JObj [(''$'' @ str_of (p_filterType params), JArr conditions)]
               else JObj []))"

definition getWhere ::
  "env \<Rightarrow> model \<Rightarrow> params \<Rightarrow> string option list option \<Rightarrow> jsval \<Rightarrow> error + jsval"
where
  "getWhere E m params fnr segmentWhere =
     (let searchPart =
            (if truthy_str (p_search params)
             then [searchBuilder_perform E m params fnr] else [])
      in case (case p_filter params of
                 None \<Rightarrow> Inr []
               | Some flt \<Rightarrow>
                   (case handleFilterParams E m params of
                      Inl e \<Rightarrow> Inl e
                    | Inr w \<Rightarrow> Inr [w])) of
           Inl e \<Rightarrow> Inl e
         | Inr filterPart \<Rightarrow>
             Inr (JObj [(''$and'',
                    JArr (searchPart @ filterPart
                          @ (if truthy segmentWhere then [segmentWhere] else [])))]))"

subsection \<open>getAndCountRecords\<close>

text \<open>The two option sets, each built by its own calls of \<open>getWhere\<close> and
  \<open>getIncludes\<close>, in the order of the source.\<close>

definition buildOptions ::
  "env \<Rightarrow> model \<Rightarrow> params \<Rightarrow> jsval \<Rightarrow> error + (qopts \<times> qopts)"
where
  "buildOptions E m params segmentWhere =
     (let fnr = fieldNamesRequested m params;
          countInclude = qb_getIncludes E m fnr
      in case getWhere E m params fnr segmentWhere of
           Inl e \<Rightarrow> Inl e
         | Inr countWhere \<Rightarrow>
             (let countOpts = \<lparr>q_include = countInclude, q_where = countWhere,
                               q_order = None, q_offset = None, q_limit = None\<rparr>
              in case getWhere E m params fnr segmentWhere of
                   Inl e \<Rightarrow> Inl e
                 | Inr findAllWhere \<Rightarrow>
                     Inr (countOpts,
                          \<lparr>q_include = qb_getIncludes E m fnr,
                           q_where = findAllWhere,
                           q_order = Some (qb_getOrder E m params),
                           q_offset = Some (qb_getSkip E m params),
                           q_limit = Some (qb_getLimit E m params)\<rparr>)))"

text \<open>
  The loop over \<open>schema.fields\<close> that runs the custom search hooks: first on the count
  options, then on the list options; an error of either call is logged and ends the
  work on that field only.
\<close>

fun searchHooks ::
  "string option \<Rightarrow> gfield list \<Rightarrow> qopts \<Rightarrow> qopts \<Rightarrow> event list \<times> qopts \<times> qopts"
where
  "searchHooks s [] co fo = ([], co, fo)"
| "searchHooks s (f # fs) co fo =
     (case gf_search f of
        None \<Rightarrow> searchHooks s fs co fo
      | Some h \<Rightarrow>
          (case h co s of
             (co', Some e) \<Rightarrow>
               (case searchHooks s fs co' fo of
                  (evs, r) \<Rightarrow>
                    (ErrorLogged (''Cannot search properly on Smart Field '' @ gf_field f) e
                       # evs, r))
           | (co', None) \<Rightarrow>
               (case h fo s of
                  (fo', Some e) \<Rightarrow>
                    (case searchHooks s fs co' fo' of
                       (evs, r) \<Rightarrow>
                         (ErrorLogged
                            (''Cannot search properly on Smart Field '' @ gf_field f) e
                            # evs, r))
                | (fo', None) \<Rightarrow> searchHooks s fs co' fo')))"

text \<open>The warnings of \<open>selectSearchFields\<close>, which runs when \<open>schema.searchFields\<close> is
  an array.\<close>

definition searchWarnings :: "rschema \<Rightarrow> model \<Rightarrow> event list" where
  "searchWarnings sch m =
     (case rs_searchFields sch of
        None \<Rightarrow> []
      | Some sf \<Rightarrow> selectSearchFields sch m sf)"

text \<open>The hooks run only when the request has a search term.\<close>

definition runSearchHooks ::
  "rschema \<Rightarrow> params \<Rightarrow> qopts \<Rightarrow> qopts \<Rightarrow> event list \<times> qopts \<times> qopts"
where
  "runSearchHooks sch params countOpts findAllOpts =
     (if truthy_str (p_search params)
      then searchHooks (p_search params) (rs_fields sch) countOpts findAllOpts
      else ([], countOpts, findAllOpts))"

text \<open>\<open>model.scope(segmentScope)\<close> when the scope is truthy, \<open>model.unscoped()\<close>
  otherwise.\<close>

definition scopingOf :: "string option \<Rightarrow> scoping" where
  "scopingOf segmentScope =
     (if truthy_str segmentScope then Scoped (str_of segmentScope) else Unscoped)"

text \<open>
  Both queries are issued, the count first, and awaited together.  When both are
  rejected the model reports the error of the count.
\<close>

definition awaitBoth ::
  "nat promise \<Rightarrow> db_record list promise \<Rightarrow> (nat \<times> db_record list) promise"
where
  "awaitBoth countResult findAllResult =
     (case countResult of
        Rejects e \<Rightarrow> Rejects e
      | Resolves count \<Rightarrow>
          (case findAllResult of
             Rejects e \<Rightarrow> Rejects e
           | Resolves records \<Rightarrow> Resolves (count, records)))"

definition getAndCountRecords ::
  "env \<Rightarrow> rschema \<Rightarrow> model \<Rightarrow> params \<Rightarrow> string option \<Rightarrow> jsval
     \<Rightarrow> event list \<times> (nat \<times> db_record list) promise"
where
  "getAndCountRecords E sch m params segmentScope segmentWhere =
     (case buildOptions E m params segmentWhere of
        Inl e \<Rightarrow> (searchWarnings sch m, Rejects e)
      | Inr (countOpts, findAllOpts) \<Rightarrow>
          (case runSearchHooks sch params countOpts findAllOpts of
             (hookEvents, co, fo) \<Rightarrow>
               (searchWarnings sch m @ hookEvents
                  @ [CountIssued (scopingOf segmentScope) co,
                     FindAllIssued (scopingOf segmentScope) fo],
                awaitBoth (db_count E (scopingOf segmentScope) co)
                  (db_findAll E (scopingOf segmentScope) fo))))"

subsection \<open>getSegment, getSegmentCondition, perform\<close>

text \<open>
  \<open>getSegment\<close> gives the values of \<open>segmentScope\<close> and \<open>segmentWhere\<close> (both undefined
  when nothing is assigned).  \<open>_.find\<close> gives undefined when no segment has the name,
  and reading \<open>segment.scope\<close> then raises.
\<close>

definition getSegment :: "rschema \<Rightarrow> params \<Rightarrow> error + (string option \<times> jsval)" where
  "getSegment sch params =
     (case rs_segments sch of
        None \<Rightarrow> Inr (None, JUndefined)
      | Some segments \<Rightarrow>
          (if truthy_str (p_segment params) then
             (case find (\<lambda>segment. Some (seg_name segment) = p_segment params) segments of
                None \<Rightarrow> Inl TypeError
              | Some segment \<Rightarrow> Inr (seg_scope segment, seg_where segment))
           else Inr (None, JUndefined)))"

text \<open>When \<open>segmentWhere\<close> is a function (\<open>_.isFunction\<close>) it is called with the
  request and the promise resolves once \<open>segmentWhere\<close> holds the resolved result;
  otherwise the promise resolves at once and \<open>segmentWhere\<close> keeps its value.\<close>

definition getSegmentCondition :: "env \<Rightarrow> params \<Rightarrow> jsval \<Rightarrow> event list \<times> jsval promise" where
  "getSegmentCondition E params segmentWhere =
     (case segmentWhere of
        JFun f \<Rightarrow> ([SegmentWhereInvoked f params], call_function E f params)
      | _ \<Rightarrow> ([], Resolves segmentWhere))"

definition attachCompositePrimary ::
  "env \<Rightarrow> rschema \<Rightarrow> model \<Rightarrow> db_record list \<Rightarrow> db_record list"
where
  "attachCompositePrimary E sch m records =
     (if rs_isCompositePrimary sch
      then map (\<lambda>r. r(''forestCompositePrimary'' \<mapsto> createCompositePrimary E m sch r))
             records
      else records)"

text \<open>The callback given to \<open>spread\<close>, on the settled pair of results.\<close>

definition spread ::
  "env \<Rightarrow> rschema \<Rightarrow> model \<Rightarrow> (nat \<times> db_record list) promise \<Rightarrow> outcome"
where
  "spread E sch m settled =
     (case settled of
        Rejects e \<Rightarrow> Rejected e
      | Resolves (count, records) \<Rightarrow>
          Fulfilled count (attachCompositePrimary E sch m records))"

definition perform :: "env \<Rightarrow> rschema \<Rightarrow> model \<Rightarrow> params \<Rightarrow> event list \<times> outcome" where
  "perform E sch m params =
     (case getSegment sch params of
        Inl e \<Rightarrow> ([], Threw e)
      | Inr (segmentScope, segmentWhere0) \<Rightarrow>
          (case getSegmentCondition E params segmentWhere0 of
             (evs1, Rejects e) \<Rightarrow> (evs1, Rejected e)
           | (evs1, Resolves segmentWhere) \<Rightarrow>
               (case getAndCountRecords E sch m params segmentScope segmentWhere of
                  (evs2, settled) \<Rightarrow> (evs1 @ evs2, spread E sch m settled))))"


section \<open>Notions of the specification\<close>

text \<open>The names a model gives its columns: attribute names, field names, database
  column names and primary-key names.\<close>

definition columnNames :: "model \<Rightarrow> string list" where
  "columnNames m =
     map fst (m_attributes m)
     @ map (\<lambda>(n, c). col_fieldName c) (m_attributes m)
     @ concat (map (\<lambda>(n, c). case col_field c of None \<Rightarrow> [] | Some f \<Rightarrow> [f])
                 (m_attributes m))
     @ map fst (m_primaryKeys m)"

text \<open>The validation entries that come from a length constraint.\<close>

definition lengthRules :: "validation list \<Rightarrow> validation list" where
  "lengthRules vs =
     filter (\<lambda>v. v_type v = ''is longer than'' \<or> v_type v = ''is shorter than'') vs"


text \<open>One elementary condition per value of each filter key, in order, for a parser
  that gives \<open>f key value\<close>.\<close>

definition elementaryConditions ::
  "(string \<Rightarrow> string \<Rightarrow> jsval) \<Rightarrow> (string \<times> string) list \<Rightarrow> jsval list"
where
  "elementaryConditions f flt =
     concat (map (\<lambda>(key, values).
                    map (\<lambda>v. JObj [(conditionKey key, f (conditionKey key) v)])
                      (split_on CHR '','' values))
               flt)"


section \<open>Example inputs\<close>

definition plainColumn :: "string \<Rightarrow> string \<Rightarrow> coltype \<Rightarrow> column" where
  "plainColumn name fld ty =
     \<lparr>col_fieldName = name, col_field = Some fld, col_type = Some ty,
      col_allowNull = JUndefined, col_validate = JUndefined, col_primaryKey = JUndefined,
      col_autoGenerated = JUndefined, col_defaultValue = JUndefined,
      col_values = JUndefined, col_references = JUndefined\<rparr>"

definition keyColumn :: "string \<Rightarrow> column" where
  "keyColumn name = (plainColumn name name (Instance [INTEGER]))\<lparr>col_primaryKey := JBool True\<rparr>"

text \<open>A table of data types that defines every constructor, and one without \<open>JSONB\<close>.\<close>

definition allTypes :: "dclass \<Rightarrow> bool" where
  "allTypes c = True"

definition typesWithoutJsonb :: "dclass \<Rightarrow> bool" where
  "typesWithoutJsonb c = (c \<noteq> JSONB)"

definition exToString :: "jsval \<Rightarrow> string" where
  "exToString v = (case v of JStr s \<Rightarrow> s | _ \<Rightarrow> ''[object Object]'')"

text \<open>A model with the single primary key \<open>id\<close>.\<close>

definition articleModel :: model where
  "articleModel =
     \<lparr>m_name = ''Article'',
      m_attributes = [(''id'', keyColumn ''id''),
                      (''title'', plainColumn ''title'' ''title'' (Instance [STRING]))],
      m_associations = [],
      m_primaryKeys = [(''id'', keyColumn ''id'')]\<rparr>"

text \<open>A model with the two primary keys \<open>orderId\<close> and \<open>productId\<close>.\<close>

definition orderLineModel :: model where
  "orderLineModel =
     \<lparr>m_name = ''OrderLine'',
      m_attributes = [(''orderId'', keyColumn ''orderId''),
                      (''productId'', keyColumn ''productId'')],
      m_associations = [],
      m_primaryKeys = [(''orderId'', keyColumn ''orderId''),
                       (''productId'', keyColumn ''productId'')]\<rparr>"

text \<open>A model with two primary keys, one of them a column named
  \<open>forestCompositePrimary\<close>.\<close>

definition markerNamedModel :: model where
  "markerNamedModel =
     \<lparr>m_name = ''Ledger'',
      m_attributes = [(''forestCompositePrimary'', keyColumn ''forestCompositePrimary''),
                      (''tenantId'', keyColumn ''tenantId'')],
      m_associations = [],
      m_primaryKeys = [(''forestCompositePrimary'', keyColumn ''forestCompositePrimary''),
                       (''tenantId'', keyColumn ''tenantId'')]\<rparr>"

text \<open>Columns with the length constraints \<open>len: [2, 10]\<close>, \<open>len: 5\<close> and
  \<open>len: [0, 10]\<close>, and an autogenerated column with \<open>len: [2, 10]\<close>.\<close>

definition titleColumn :: column where
  "titleColumn =
     (plainColumn ''title'' ''title'' (Instance [STRING]))
       \<lparr>col_allowNull := JBool False,
        col_validate := JObj [(''len'', JArr [JNum 2, JNum 10])]\<rparr>"

definition codeColumn :: column where
  "codeColumn =
     (plainColumn ''code'' ''code'' (Instance [STRING]))
       \<lparr>col_validate := JObj [(''len'', JNum 5)]\<rparr>"

definition nickColumn :: column where
  "nickColumn =
     (plainColumn ''nick'' ''nick'' (Instance [STRING]))
       \<lparr>col_validate := JObj [(''len'', JArr [JNum 0, JNum 10])]\<rparr>"

definition generatedColumn :: column where
  "generatedColumn =
     (plainColumn ''slug'' ''slug'' (Instance [STRING]))
       \<lparr>col_autoGenerated := JBool True,
        col_validate := JObj [(''len'', JArr [JNum 2, JNum 10])]\<rparr>"


text \<open>Belongs-to-one associations to a target whose key \<open>id\<close> has the given type, and
  two models that use them.\<close>

definition userTarget :: "coltype \<Rightarrow> (string \<times> column) list" where
  "userTarget ty = [(''id'', (plainColumn ''id'' ''id'' ty)\<lparr>col_primaryKey := JBool True\<rparr>)]"

definition userIdColumn :: column where
  "userIdColumn =
     (plainColumn ''userId'' ''user_id'' (Instance [INTEGER]))
       \<lparr>col_primaryKey := JBool True,
        col_references := JObj [(''model'', JStr ''users'')]\<rparr>"

definition userIdSchema :: field_schema where
  "userIdSchema =
     \<lparr>f_field = ''userId'', f_type = Tag ''Number'', f_columnName = Some ''user_id'',
      f_primaryKey = True, f_enums = None, f_isRequired = False, f_defaultValue = None,
      f_validations = None, f_reference = None, f_inverseOf = None\<rparr>"

definition belongsTo :: "string \<Rightarrow> string \<Rightarrow> string \<Rightarrow> string \<Rightarrow> coltype \<Rightarrow> association" where
  "belongsTo accessor target fk fkField keyType =
     \<lparr>a_associationAccessor = accessor, a_associationType = ''BelongsTo'',
      a_target_name = target, a_target_attributes = userTarget keyType,
      a_targetKey = Some ''id'', a_foreignKey = Some fk,
      a_identifierField = Some fkField\<rparr>"

definition membershipModel :: model where
  "membershipModel =
     \<lparr>m_name = ''Membership'',
      m_attributes =
        [(''userId'', userIdColumn),
         (''teamId'', plainColumn ''teamId'' ''team_id'' (Instance [INTEGER]))],
      m_associations =
        [(''user'', belongsTo ''user'' ''User'' ''userId'' ''user_id'' (Instance [INTEGER])),
         (''team'', belongsTo ''team'' ''Team'' ''teamId'' ''team_id'' (Instance [INTEGER]))],
      m_primaryKeys =
        [(''userId'', userIdColumn)]\<rparr>"

definition commentModel :: model where
  "commentModel =
     \<lparr>m_name = ''Comment'',
      m_attributes =
        [(''id'', keyColumn ''id''),
         (''authorId'', plainColumn ''authorId'' ''author_id'' (Instance [INTEGER]))],
      m_associations =
        [(''author'', belongsTo ''author'' ''User'' ''authorId'' ''author_id'' (Instance []))],
      m_primaryKeys = [(''id'', keyColumn ''id'')]\<rparr>"


text \<open>Requests, and collaborators that parse a value to the string it is.\<close>

definition noParams :: params where
  "noParams = \<lparr>p_fields = None, p_filter = None, p_filterType = None, p_sort = None,
                p_search = None, p_segment = None, p_timezone = None\<rparr>"

definition exEnv :: env where
  "exEnv =
     \<lparr>ovp_perform = (\<lambda>m key v tz. Inr (JStr v)),
      searchBuilder_perform = (\<lambda>m params fnr. JObj [(''$or'', JArr [])]),
      qb_getIncludes = (\<lambda>m fnr. JArr []),
      qb_getOrder = (\<lambda>m params. JArr []),
      qb_getSkip = (\<lambda>m params. JNum 0),
      qb_getLimit = (\<lambda>m params. JNum 10),
      createCompositePrimary = (\<lambda>m sch r. JStr ''1-2''),
      call_function = (\<lambda>f params. Resolves (JObj [(''published'', JBool True)])),
      db_count = (\<lambda>sc opts. Resolves 1),
      db_findAll = (\<lambda>sc opts. Resolves [[''id'' \<mapsto> JNum 1]])\<rparr>"

definition ageFilterParams :: params where
  "ageFilterParams = noParams\<lparr>p_filter := Some [(''age'', ''18,21'')]\<rparr>"

definition ageOrFilterParams :: params where
  "ageOrFilterParams = ageFilterParams\<lparr>p_filterType := Some ''or''\<rparr>"

definition authorFilterParams :: params where
  "authorFilterParams =
     noParams\<lparr>p_fields := Some [(''Article'', ''title'')],
              p_filter := Some [(''author:name'', ''Ann'')],
              p_filterType := Some ''and'',
              p_sort := Some ''category.label''\<rparr>"


text \<open>A request for the field \<open>quantity\<close> of \<open>OrderLine\<close>, and one sorted on
  \<open>-author.name\<close>.\<close>

definition quantityParams :: params where
  "quantityParams = noParams\<lparr>p_fields := Some [(''OrderLine'', ''quantity'')]\<rparr>"

definition descendingSortParams :: params where
  "descendingSortParams =
     noParams\<lparr>p_fields := Some [(''Article'', ''title'')],
              p_sort := Some ''-author.name''\<rparr>"

text \<open>A registry entry with the segment \<open>published\<close>, whose where-condition is the
  function \<open>0\<close>; the entry of a model with two primary keys, and a backing collection
  that returns one of its records; requests that name a segment.\<close>

definition publishedSegment :: segment where
  "publishedSegment = \<lparr>seg_name = ''published'', seg_scope = None, seg_where = JFun 0\<rparr>"

definition articleSchema :: rschema where
  "articleSchema =
     \<lparr>rs_fields = [\<lparr>gf_field = ''id'', gf_search = None\<rparr>,
                   \<lparr>gf_field = ''title'', gf_search = None\<rparr>],
      rs_searchFields = None,
      rs_segments = Some [publishedSegment],
      rs_isCompositePrimary = False\<rparr>"

definition orderLineSchema :: rschema where
  "orderLineSchema =
     \<lparr>rs_fields = [\<lparr>gf_field = ''orderId'', gf_search = None\<rparr>,
                   \<lparr>gf_field = ''productId'', gf_search = None\<rparr>],
      rs_searchFields = None,
      rs_segments = None,
      rs_isCompositePrimary = True\<rparr>"

definition orderLineEnv :: env where
  "orderLineEnv =
     exEnv\<lparr>db_findAll :=
             (\<lambda>sc opts. Resolves [[''orderId'' \<mapsto> JNum 1, ''productId'' \<mapsto> JNum 2]])\<rparr>"

definition publishedParams :: params where
  "publishedParams = noParams\<lparr>p_segment := Some ''published''\<rparr>"

definition archivedParams :: params where
  "archivedParams = noParams\<lparr>p_segment := Some ''archived''\<rparr>"





text \<open>A model with one primary key and a column named \<open>forestCompositePrimary\<close>, its
  registry entry, and a backing collection that returns one of its records.\<close>

definition legacyModel :: model where
  "legacyModel =
     \<lparr>m_name = ''Legacy'',
      m_attributes =
        [(''id'', keyColumn ''id''),
         (''forestCompositePrimary'',
          plainColumn ''forestCompositePrimary'' ''forestCompositePrimary'' (Instance [STRING]))],
      m_associations = [],
      m_primaryKeys = [(''id'', keyColumn ''id'')]\<rparr>"

definition legacySchema :: rschema where
  "legacySchema =
     \<lparr>rs_fields = [\<lparr>gf_field = ''id'', gf_search = None\<rparr>,
                   \<lparr>gf_field = ''forestCompositePrimary'', gf_search = None\<rparr>],
      rs_searchFields = None,
      rs_segments = None,
      rs_isCompositePrimary = False\<rparr>"

definition legacyEnv :: env where
  "legacyEnv =
     exEnv\<lparr>db_findAll :=
             (\<lambda>sc opts. Resolves [[''id'' \<mapsto> JNum 1,
                                     ''forestCompositePrimary'' \<mapsto> JStr ''old'']])\<rparr>"

text \<open>The options that the example collaborators give for a request without search and
  filter: the conditions are those of the segment.\<close>

definition plainCountOpts :: "jsval list \<Rightarrow> qopts" where
  "plainCountOpts conds =
     \<lparr>q_include = JArr [], q_where = JObj [(''$and'', JArr conds)],
      q_order = None, q_offset = None, q_limit = None\<rparr>"

definition plainFindAllOpts :: "jsval list \<Rightarrow> qopts" where
  "plainFindAllOpts conds =
     \<lparr>q_include = JArr [], q_where = JObj [(''$and'', JArr conds)],
      q_order = Some (JArr []), q_offset = Some (JNum 0), q_limit = Some (JNum 10)\<rparr>"


section \<open>Properties of the Schema Builder\<close>

lemma truthy_not_nullish: "truthy v \<Longrightarrow> v \<noteq> JUndefined \<and> v \<noteq> JNull"
  by (cases v) auto

subsection \<open>Primary keys and the identifier field\<close>

text \<open>
  C1, as the code has it.  For every model with more than one primary key the schema has
  \<open>isCompositePrimary = true\<close> and its \<open>idField\<close> is the marker
  \<open>forestCompositePrimary\<close>, which is none of the model's column names unless the model
  itself names a column so; for every model with exactly one primary key,
  \<open>isCompositePrimary\<close> is false and \<open>idField\<close> is the name of that key.
\<close>

theorem idField_of_schema:
  "(1 < length (m_primaryKeys m) \<longrightarrow>
      s_isCompositePrimary (fst (schemaBuilder dt toStr m))
      \<and> s_idField (fst (schemaBuilder dt toStr m)) = Some ''forestCompositePrimary''
      \<and> (''forestCompositePrimary'' \<notin> set (columnNames m) \<longrightarrow>
           (\<forall>n \<in> set (columnNames m). s_idField (fst (schemaBuilder dt toStr m)) \<noteq> Some n)))
   \<and> (length (m_primaryKeys m) = 1 \<longrightarrow>
      \<not> s_isCompositePrimary (fst (schemaBuilder dt toStr m))
      \<and> s_idField (fst (schemaBuilder dt toStr m)) = Some (fst (hd (m_primaryKeys m))))"
  by (cases "m_primaryKeys m") (auto simp: schemaBuilder_def Let_def)

text \<open>The theorem at a model with two keys and at a model with one.\<close>

theorem idField_of_schema_witness:
  "1 < length (m_primaryKeys orderLineModel)
   \<and> s_isCompositePrimary (fst (schemaBuilder allTypes exToString orderLineModel))
   \<and> s_idField (fst (schemaBuilder allTypes exToString orderLineModel))
       = Some ''forestCompositePrimary''
   \<and> ''forestCompositePrimary'' \<notin> set (columnNames orderLineModel)
   \<and> length (m_primaryKeys articleModel) = 1
   \<and> \<not> s_isCompositePrimary (fst (schemaBuilder allTypes exToString articleModel))
   \<and> s_idField (fst (schemaBuilder allTypes exToString articleModel)) = Some ''id''"
proof -
  have two: "1 < length (m_primaryKeys orderLineModel)"
    by (simp add: orderLineModel_def)
  have one: "length (m_primaryKeys articleModel) = 1"
    by (simp add: articleModel_def)
  have fresh: "''forestCompositePrimary'' \<notin> set (columnNames orderLineModel)"
    by (simp add: orderLineModel_def columnNames_def keyColumn_def plainColumn_def)
  have key: "fst (hd (m_primaryKeys articleModel)) = ''id''"
    by (simp add: articleModel_def)
  show ?thesis
    using idField_of_schema [of orderLineModel allTypes exToString]
      idField_of_schema [of articleModel allTypes exToString] two one fresh key
    by simp
qed

text \<open>
  C1 as stated fails where the model has a column of the marker's name: the model has
  two primary keys, and the \<open>idField\<close> of its schema is the name of one of them.
\<close>

theorem idField_real_column_counterexample:
  "1 < length (m_primaryKeys markerNamedModel)
   \<and> s_idField (fst (schemaBuilder allTypes exToString markerNamedModel))
       = Some ''forestCompositePrimary''
   \<and> ''forestCompositePrimary'' \<in> set (map fst (m_primaryKeys markerNamedModel))
   \<and> ''forestCompositePrimary'' \<in> set (columnNames markerNamedModel)"
  by (simp add: schemaBuilder_def Let_def markerNamedModel_def columnNames_def)

subsection \<open>Length validations\<close>

lemma truthy_member: "v = member obj k \<Longrightarrow> truthy v \<Longrightarrow> truthy obj"
  by (cases obj) auto

lemma lengthRules_ruleIf:
  "t \<noteq> ''is longer than'' \<Longrightarrow> t \<noteq> ''is shorter than'' \<Longrightarrow> lengthRules (ruleIf t c) = []"
  by (simp add: lengthRules_def ruleIf_def rule_def)

lemma lengthRules_isRules: "lengthRules (isRules toStr c) = []"
  by (simp add: lengthRules_def isRules_def)

lemma lengthRules_append: "lengthRules (xs @ ys) = lengthRules xs @ lengthRules ys"
  by (simp add: lengthRules_def)

lemma lengthRules_lenRules: "lengthRules (lenRules len) = lenRules len"
  by (simp add: lengthRules_def lenRules_def Let_def)

lemma lengthRules_getValidations:
  "col_autoGenerated c \<noteq> JBool True \<Longrightarrow> truthy (col_validate c) \<Longrightarrow>
   lengthRules (getValidations toStr c) = lenRules (member (col_validate c) ''len'')"
  by (simp add: getValidations_def Let_def lengthRules_append lengthRules_ruleIf
        lengthRules_isRules lengthRules_lenRules)
     (simp add: lengthRules_def)

text \<open>
  C3, as the code has it.  For every column that is not autogenerated and has a length
  constraint (a truthy \<open>validate.len\<close>, whose bounds are \<open>len.args || len\<close>): if the
  bounds have a truthy lower bound at index 0 and a truthy upper bound at index 1, the
  length entries of the validations are exactly two, an \<open>is longer than\<close> entry with
  the lower bound and an \<open>is shorter than\<close> entry with the upper bound; if the bounds
  are a bare number, there is exactly one length entry, \<open>is longer than\<close> that
  number.  The entries of the column's other constraints stand beside them.
\<close>

theorem length_validations:
  assumes "col_autoGenerated c \<noteq> JBool True"
    and "len = member (col_validate c) ''len''"
    and "truthy len"
    and "bounds = js_or (member len ''args'') len"
  shows "(truthy (idx bounds 0) \<and> truthy (idx bounds 1) \<longrightarrow>
            lengthRules (getValidations toStr c) =
              [\<lparr>v_type = ''is longer than'', v_value = idx bounds 0,
                v_message = member len ''msg''\<rparr>,
               \<lparr>v_type = ''is shorter than'', v_value = idx bounds 1,
                v_message = member len ''msg''\<rparr>])
       \<and> ((\<exists>n. bounds = JNum n) \<longrightarrow>
            lengthRules (getValidations toStr c) =
              [\<lparr>v_type = ''is longer than'', v_value = bounds,
                v_message = member len ''msg''\<rparr>])"
proof -
  have "truthy (col_validate c)"
    using assms(2,3) by (rule truthy_member)
  with assms show ?thesis
    by (auto simp: lengthRules_getValidations lenRules_def Let_def)
qed

text \<open>The theorem at \<open>len: [2, 10]\<close> and at \<open>len: 5\<close>.\<close>

theorem length_validations_witness:
  "col_autoGenerated titleColumn \<noteq> JBool True
   \<and> truthy (member (col_validate titleColumn) ''len'')
   \<and> lengthRules (getValidations exToString titleColumn) =
       [\<lparr>v_type = ''is longer than'', v_value = JNum 2, v_message = JUndefined\<rparr>,
        \<lparr>v_type = ''is shorter than'', v_value = JNum 10, v_message = JUndefined\<rparr>]
   \<and> col_autoGenerated codeColumn \<noteq> JBool True
   \<and> truthy (member (col_validate codeColumn) ''len'')
   \<and> lengthRules (getValidations exToString codeColumn) =
       [\<lparr>v_type = ''is longer than'', v_value = JNum 5, v_message = JUndefined\<rparr>]"
proof -
  have t1: "col_autoGenerated titleColumn \<noteq> JBool True"
    and t3: "JArr [JNum 2, JNum 10] = member (col_validate titleColumn) ''len''"
    by (simp_all add: titleColumn_def plainColumn_def)
  have t4: "truthy (JArr [JNum 2, JNum 10])"
    and t5: "JArr [JNum 2, JNum 10] =
               js_or (member (JArr [JNum 2, JNum 10]) ''args'') (JArr [JNum 2, JNum 10])"
    by (simp_all add: js_or_def)
  have c1: "col_autoGenerated codeColumn \<noteq> JBool True"
    and c3: "JNum 5 = member (col_validate codeColumn) ''len''"
    by (simp_all add: codeColumn_def plainColumn_def)
  have c4: "truthy (JNum 5)"
    and c5: "JNum 5 = js_or (member (JNum 5) ''args'') (JNum 5)"
    by (simp_all add: js_or_def)
  note T = length_validations [OF t1 t3 t4 t5, of exToString]
  note C = length_validations [OF c1 c3 c4 c5, of exToString]
  from T have "lengthRules (getValidations exToString titleColumn) =
       [\<lparr>v_type = ''is longer than'', v_value = JNum 2, v_message = JUndefined\<rparr>,
        \<lparr>v_type = ''is shorter than'', v_value = JNum 10, v_message = JUndefined\<rparr>]"
    by simp
  moreover from C have "lengthRules (getValidations exToString codeColumn) =
       [\<lparr>v_type = ''is longer than'', v_value = JNum 5, v_message = JUndefined\<rparr>]"
    by simp
  ultimately show ?thesis
    using t1 t3 [symmetric] c1 c3 [symmetric] by simp
qed

text \<open>
  C3 as stated fails on an autogenerated column: its length constraint \<open>[2, 10]\<close> gives
  no validation entry at all.
\<close>

theorem length_autogenerated_counterexample:
  "member (col_validate generatedColumn) ''len'' = JArr [JNum 2, JNum 10]
   \<and> getValidations exToString generatedColumn = []"
  by (simp add: getValidations_def generatedColumn_def plainColumn_def)

text \<open>The whole list for \<open>len: [2, 10]\<close> on a required column, and for the bounds
  \<open>[0, 10]\<close>, whose lower bound is falsy.\<close>

lemma validations_titleColumn:
  "getValidations exToString titleColumn =
     [\<lparr>v_type = ''is present'', v_value = JUndefined, v_message = JUndefined\<rparr>,
      \<lparr>v_type = ''is longer than'', v_value = JNum 2, v_message = JUndefined\<rparr>,
      \<lparr>v_type = ''is shorter than'', v_value = JNum 10, v_message = JUndefined\<rparr>]"
  by (simp add: getValidations_def titleColumn_def plainColumn_def Let_def ruleIf_def
        lenRules_def isRules_def js_or_def)

lemma validations_nickColumn:
  "getValidations exToString nickColumn =
     [\<lparr>v_type = ''is longer than'', v_value = JArr [JNum 0, JNum 10],
       v_message = JUndefined\<rparr>]"
  by (simp add: getValidations_def nickColumn_def plainColumn_def Let_def ruleIf_def
        lenRules_def isRules_def js_or_def)

subsection \<open>Foreign keys of belongs-to-one associations\<close>

lemma columnStep_fields: "set (b_fields st) \<subseteq> set (b_fields (columnStep dt toStr m st c))"
  by (auto simp: columnStep_def split: sum.splits)

lemma associationStep_fields: "set (b_fields st) \<subseteq> set (b_fields (associationStep dt m st a))"
  by (auto simp: associationStep_def split: sum.splits)

lemma associationStep_exclude:
  "set (b_fieldNamesToExclude st) \<subseteq> set (b_fieldNamesToExclude (associationStep dt m st a))"
  by (auto simp: associationStep_def getSchemaForAssociation_def split: sum.splits)

lemma foldl_columnStep_fields:
  "set (b_fields st) \<subseteq> set (b_fields (foldl (columnStep dt toStr m) st cs))"
proof (induction cs arbitrary: st)
  case Nil
  show ?case by simp
next
  case (Cons c cs)
  show ?case using columnStep_fields [of st dt toStr m c] Cons.IH [of "columnStep dt toStr m st c"]
    by auto
qed

lemma foldl_associationStep_fields:
  "set (b_fields st) \<subseteq> set (b_fields (foldl (associationStep dt m) st as))"
proof (induction as arbitrary: st)
  case Nil
  show ?case by simp
next
  case (Cons a as)
  show ?case using associationStep_fields [of st dt m a] Cons.IH [of "associationStep dt m st a"]
    by auto
qed

lemma foldl_associationStep_exclude:
  "set (b_fieldNamesToExclude st)
     \<subseteq> set (b_fieldNamesToExclude (foldl (associationStep dt m) st as))"
proof (induction as arbitrary: st)
  case Nil
  show ?case by simp
next
  case (Cons a as)
  show ?case
    using associationStep_exclude [of st dt m a] Cons.IH [of "associationStep dt m st a"]
    by auto
qed

lemma associationStep_belongsTo:
  "a_associationType a = ''BelongsTo'' \<Longrightarrow> getTypeForAssociation dt a = Inr ty \<Longrightarrow>
   a_identifierField a \<in> set (b_fieldNamesToExclude (associationStep dt m st a))"
  by (simp add: associationStep_def getSchemaForAssociation_def)

lemma foldl_associationStep_belongsTo:
  "a \<in> set as \<Longrightarrow> a_associationType a = ''BelongsTo'' \<Longrightarrow>
   getTypeForAssociation dt a = Inr ty \<Longrightarrow>
   a_identifierField a \<in> set (b_fieldNamesToExclude (foldl (associationStep dt m) st as))"
proof (induction as arbitrary: st)
  case Nil
  then show ?case by simp
next
  case (Cons b bs)
  show ?case
  proof (cases "a = b")
    case True
    with Cons.prems have "a_identifierField a
        \<in> set (b_fieldNamesToExclude (associationStep dt m st b))"
      by (simp add: associationStep_belongsTo)
    then show ?thesis
      using foldl_associationStep_exclude [of "associationStep dt m st b" dt m bs] by auto
  next
    case False
    with Cons.prems have "a \<in> set bs" by simp
    then show ?thesis using Cons.IH Cons.prems by simp
  qed
qed

lemma columnStep_primaryKey:
  "col_primaryKey c = JBool True \<Longrightarrow> getSchemaForColumn dt toStr m c = Inr f \<Longrightarrow>
   f \<in> set (b_fields (columnStep dt toStr m st c))"
  by (simp add: columnStep_def)

lemma foldl_columnStep_primaryKey:
  "c \<in> set cs \<Longrightarrow> col_primaryKey c = JBool True \<Longrightarrow>
   getSchemaForColumn dt toStr m c = Inr f \<Longrightarrow>
   f \<in> set (b_fields (foldl (columnStep dt toStr m) st cs))"
proof (induction cs arbitrary: st)
  case Nil
  then show ?case by simp
next
  case (Cons d ds)
  show ?case
  proof (cases "c = d")
    case True
    with Cons.prems have "f \<in> set (b_fields (columnStep dt toStr m st d))"
      by (simp add: columnStep_primaryKey)
    then show ?thesis
      using foldl_columnStep_fields [of "columnStep dt toStr m st d" dt toStr m ds] by auto
  next
    case False
    with Cons.prems have "c \<in> set ds" by simp
    then show ?thesis using Cons.IH Cons.prems by simp
  qed
qed

lemma getSchemaForColumn_primaryKey:
  "getSchemaForColumn dt toStr m c = Inr f \<Longrightarrow> f_primaryKey f = (col_primaryKey c = JBool True)"
  by (auto simp: getSchemaForColumn_def Let_def split: sum.splits)

lemma s_fields_schemaBuilder:
  "set (s_fields (fst (schemaBuilder dt toStr m))) =
     {f \<in> set (b_fields (collect dt toStr m)).
        f_columnName f \<in> set (b_fieldNamesToExclude (collect dt toStr m)) \<longrightarrow> f_primaryKey f}"
  by (auto simp: schemaBuilder_def Let_def)

text \<open>
  C4, as the code has it.  For every belongs-to-one association whose own schema is
  derived without an error, no field of the final list has the association's
  \<open>identifierField\<close> as its column name unless the field carries
  \<open>primaryKey: true\<close>; and every column with \<open>primaryKey === true\<close> whose schema is
  derived without an error is in the final list, so a foreign-key column that is a
  primary key is retained.
\<close>

theorem belongsTo_foreign_key_excluded:
  "(\<forall>a \<in> set (map snd (m_associations m)).
      a_associationType a = ''BelongsTo'' \<and> (\<exists>ty. getTypeForAssociation dt a = Inr ty) \<longrightarrow>
      (\<forall>f \<in> set (s_fields (fst (schemaBuilder dt toStr m))).
         f_columnName f = a_identifierField a \<longrightarrow> f_primaryKey f))
   \<and> (\<forall>c \<in> set (map snd (m_attributes m)). \<forall>f.
        col_primaryKey c = JBool True \<and> getSchemaForColumn dt toStr m c = Inr f \<longrightarrow>
        f \<in> set (s_fields (fst (schemaBuilder dt toStr m))))"
proof (intro conjI ballI allI impI)
  fix a f
  assume a: "a \<in> set (map snd (m_associations m))"
    and bt: "a_associationType a = ''BelongsTo'' \<and> (\<exists>ty. getTypeForAssociation dt a = Inr ty)"
    and f: "f \<in> set (s_fields (fst (schemaBuilder dt toStr m)))"
    and col: "f_columnName f = a_identifierField a"
  from bt obtain ty where ty: "getTypeForAssociation dt a = Inr ty" by blast
  have "a_identifierField a \<in> set (b_fieldNamesToExclude (collect dt toStr m))"
    unfolding collect_def using a bt ty by (intro foldl_associationStep_belongsTo) auto
  with f col show "f_primaryKey f"
    by (simp add: s_fields_schemaBuilder)
next
  fix c f
  assume c: "c \<in> set (map snd (m_attributes m))"
    and pk: "col_primaryKey c = JBool True \<and> getSchemaForColumn dt toStr m c = Inr f"
  have "f \<in> set (b_fields (foldl (columnStep dt toStr m)
           \<lparr>b_fields = [], b_fieldNamesToExclude = [], b_log = []\<rparr> (map snd (m_attributes m))))"
    using c pk by (intro foldl_columnStep_primaryKey) auto
  then have "f \<in> set (b_fields (collect dt toStr m))"
    unfolding collect_def using foldl_associationStep_fields by blast
  moreover have "f_primaryKey f"
    using pk getSchemaForColumn_primaryKey by blast
  ultimately show "f \<in> set (s_fields (fst (schemaBuilder dt toStr m)))"
    by (simp add: s_fields_schemaBuilder)
qed


lemma getTypeFor_integer: "getTypeFor allTypes (Some (Instance [INTEGER])) = Inr (Tag ''Number'')"
  by (simp add: getTypeFor_def typeBranches_def allTypes_def)

lemma getTypeFor_integer_old:
  "getTypeFor typesWithoutJsonb (Some (Instance [INTEGER])) = Inr (Tag ''Number'')"
  by (simp add: getTypeFor_def typeBranches_def typesWithoutJsonb_def)

lemma getTypeFor_unrecognised_old:
  "getTypeFor typesWithoutJsonb (Some (Instance [])) = Inl TypeError"
  by (simp add: getTypeFor_def typeBranches_def typesWithoutJsonb_def)

lemma schemaBuilder_membershipModel:
  "map f_columnName (s_fields (fst (schemaBuilder allTypes exToString membershipModel)))
     = [Some ''user_id'', None, None]"
  by (simp add: schemaBuilder_def collect_def membershipModel_def columnStep_def
        associationStep_def getSchemaForAssociation_def getSchemaForColumn_def
        getTypeForAssociation_def belongsTo_def userTarget_def userIdColumn_def
        plainColumn_def getTypeFor_integer Let_def)

text \<open>The theorem at a model whose foreign key \<open>user_id\<close> is its primary key and whose
  foreign key \<open>team_id\<close> is not: the first is kept, the second is gone.\<close>

theorem belongsTo_foreign_key_excluded_witness:
  "a_associationType (belongsTo ''user'' ''User'' ''userId'' ''user_id'' (Instance [INTEGER]))
     = ''BelongsTo''
   \<and> getTypeForAssociation allTypes
        (belongsTo ''user'' ''User'' ''userId'' ''user_id'' (Instance [INTEGER]))
       = Inr (Tag ''Number'')
   \<and> col_primaryKey userIdColumn = JBool True
   \<and> getSchemaForColumn allTypes exToString membershipModel userIdColumn = Inr userIdSchema
   \<and> userIdSchema \<in> set (s_fields (fst (schemaBuilder allTypes exToString membershipModel)))
   \<and> f_columnName userIdSchema
       = a_identifierField
           (belongsTo ''user'' ''User'' ''userId'' ''user_id'' (Instance [INTEGER]))
   \<and> f_primaryKey userIdSchema
   \<and> map f_columnName (s_fields (fst (schemaBuilder allTypes exToString membershipModel)))
       = [Some ''user_id'', None, None]"
proof -
  let ?a = "belongsTo ''user'' ''User'' ''userId'' ''user_id'' (Instance [INTEGER])"
  let ?S = "fst (schemaBuilder allTypes exToString membershipModel)"
  have a1: "?a \<in> set (map snd (m_associations membershipModel))"
    by (simp add: membershipModel_def)
  have a2: "a_associationType ?a = ''BelongsTo''"
    by (simp add: belongsTo_def)
  have a3: "getTypeForAssociation allTypes ?a = Inr (Tag ''Number'')"
    by (simp add: getTypeForAssociation_def belongsTo_def userTarget_def plainColumn_def
          getTypeFor_integer)
  have c1: "userIdColumn \<in> set (map snd (m_attributes membershipModel))"
    by (simp add: membershipModel_def)
  have c2: "col_primaryKey userIdColumn = JBool True"
    by (simp add: userIdColumn_def)
  have c3: "getSchemaForColumn allTypes exToString membershipModel userIdColumn
              = Inr userIdSchema"
    by (simp add: getSchemaForColumn_def userIdColumn_def plainColumn_def getTypeFor_integer
          getValidations_def getIsRequired_def userIdSchema_def)
  have c4: "f_columnName userIdSchema = a_identifierField ?a"
    by (simp add: userIdSchema_def belongsTo_def)
  note T = belongsTo_foreign_key_excluded [of membershipModel allTypes exToString]
  from T c1 c2 c3 have kept: "userIdSchema \<in> set (s_fields ?S)"
    by blast
  from T a1 a2 a3 kept c4 have "f_primaryKey userIdSchema"
    by blast
  with a2 a3 c2 c3 c4 kept schemaBuilder_membershipModel show ?thesis
    by simp
qed

text \<open>
  C4 as stated fails for an association whose schema cannot be derived: with a table of
  data types that lacks \<open>JSONB\<close> and a target key of a type none of the tested
  constructors, \<open>getTypeFor\<close> raises inside \<open>getSchemaForAssociation\<close>, the error is
  logged, the name is never put on the exclusion list, and the column \<open>author_id\<close>,
  which is no primary key, stays in the field list.
\<close>

theorem belongsTo_failed_association_counterexample:
  "a_associationType (belongsTo ''author'' ''User'' ''authorId'' ''author_id'' (Instance []))
     = ''BelongsTo''
   \<and> a_identifierField (belongsTo ''author'' ''User'' ''authorId'' ''author_id'' (Instance []))
     = Some ''author_id''
   \<and> map snd (m_associations commentModel)
     = [belongsTo ''author'' ''User'' ''authorId'' ''author_id'' (Instance [])]
   \<and> map f_columnName (s_fields (fst (schemaBuilder typesWithoutJsonb exToString commentModel)))
     = [Some ''id'', Some ''author_id'']
   \<and> map f_primaryKey (s_fields (fst (schemaBuilder typesWithoutJsonb exToString commentModel)))
     = [True, False]
   \<and> map fst (snd (schemaBuilder typesWithoutJsonb exToString commentModel))
     = [''Cannot fetch properly association author of model Comment'']"
  by (simp add: schemaBuilder_def collect_def commentModel_def columnStep_def
        associationStep_def getSchemaForAssociation_def getSchemaForColumn_def
        getTypeForAssociation_def belongsTo_def userTarget_def keyColumn_def
        plainColumn_def getTypeFor_integer_old getTypeFor_unrecognised_old Let_def)

text \<open>
  With a table that defines every constructor and target keys that have a type, no
  association fails, and the exclusion then covers every belongs-to-one association.
\<close>

lemma run_probe_defined: "\<exists>b. run_probe (\<lambda>c. True) t p = Inr b"
  by (cases p) auto

lemma probe_any_defined: "\<exists>b. probe_any (\<lambda>c. True) t ps = Inr b"
proof (induction ps)
  case Nil
  show ?case by auto
next
  case (Cons p ps)
  obtain b where b: "run_probe (\<lambda>c. True) t p = Inr b"
    using run_probe_defined by blast
  show ?case
  proof (cases b)
    case True
    with b show ?thesis by auto
  next
    case False
    with b Cons.IH show ?thesis by auto
  qed
qed

lemma firstBranch_defined: "\<exists>r. firstBranch (\<lambda>c. True) t bs = Inr r"
proof (induction bs)
  case Nil
  show ?case by simp
next
  case (Cons b bs)
  obtain ps tag where b: "b = (ps, tag)" by (cases b)
  obtain v where v: "probe_any (\<lambda>c. True) t ps = Inr v"
    using probe_any_defined by blast
  show ?case
  proof (cases v)
    case True
    with b v show ?thesis by simp
  next
    case False
    with b v Cons.IH show ?thesis by simp
  qed
qed

lemma getTypeOf_defined: "\<exists>s. getTypeOf (\<lambda>c. True) ty = Inr s"
proof (induction ty)
  case (Instance cs)
  obtain r where "firstBranch (\<lambda>c. True) (Some (Instance cs)) typeBranches = Inr r"
    using firstBranch_defined by blast
  then show ?case by (cases r) simp_all
next
  case (Wrapping cs inner)
  obtain r where r: "firstBranch (\<lambda>c. True) (Some (Wrapping cs inner)) typeBranches = Inr r"
    using firstBranch_defined by blast
  from Wrapping obtain s where s: "getTypeOf (\<lambda>c. True) inner = Inr s" by blast
  from r s show ?case by (cases r) simp_all
next
  case (Literal s)
  obtain r where "firstBranch (\<lambda>c. True) (Some (Literal s)) typeBranches = Inr r"
    using firstBranch_defined by blast
  then show ?case by (cases r) simp_all
qed

lemma getTypeForAssociation_defined:
  assumes "\<And>c. dt c"
    and "\<And>k col. a_targetKey a = Some k \<Longrightarrow> map_of (a_target_attributes a) k = Some col
           \<Longrightarrow> col_type col \<noteq> None"
  shows "\<exists>ty. getTypeForAssociation dt a = Inr ty"
proof -
  have dt: "dt = (\<lambda>c. True)"
    using assms(1) by (intro ext) simp
  have typed: "\<exists>s. getTypeFor dt (Some t) = Inr s" for t
    using getTypeOf_defined by (simp add: getTypeFor_def dt)
  show ?thesis
  proof (cases "a_targetKey a")
    case None
    then show ?thesis by (simp add: getTypeForAssociation_def)
  next
    case (Some k)
    show ?thesis
    proof (cases "map_of (a_target_attributes a) k")
      case None
      with Some show ?thesis by (simp add: getTypeForAssociation_def)
    next
      case (Some col)
      with \<open>a_targetKey a = Some k\<close> assms(2) obtain t where "col_type col = Some t"
        by blast
      moreover obtain s where "getTypeFor dt (Some t) = Inr s"
        using typed by blast
      ultimately show ?thesis
        using Some \<open>a_targetKey a = Some k\<close> by (simp add: getTypeForAssociation_def)
    qed
  qed
qed


section \<open>Properties of the Resources Getter\<close>

subsection \<open>Strings and arrays\<close>

lemma set_uniq: "set (uniq xs) = set xs"
  by (simp add: uniq_def)

lemma distinct_uniq: "distinct (uniq xs)"
  by (simp add: uniq_def)

lemma split_on_not_Nil: "split_on c s \<noteq> []"
  by (induction s) (auto simp: Let_def)

lemma hd_split_on: "hd (split_on c s) = takeWhile (\<lambda>x. x \<noteq> c) s"
  by (induction s) (auto simp: Let_def)

lemma replace_first_path:
  "a \<notin> set xs \<Longrightarrow> replace_first a b (xs @ a # ys) = xs @ b # ys"
  by (induction xs) auto

lemma conditionKey_path:
  "CHR '':'' \<notin> set assoc \<Longrightarrow>
   conditionKey (assoc @ CHR '':'' # rest) = ''$'' @ assoc @ ''.'' @ rest @ ''$''"
  by (simp add: conditionKey_def replace_first_path)

lemma first_separator:
  "c \<in> set s \<Longrightarrow> s = takeWhile (\<lambda>x. x \<noteq> c) s @ [c] @ tl (dropWhile (\<lambda>x. x \<noteq> c) s)"
  by (induction s) auto

lemma takeWhile_path: "c \<notin> set xs \<Longrightarrow> takeWhile (\<lambda>x. x \<noteq> c) (xs @ c # ys) = xs"
  by (induction xs) auto


subsection \<open>Requested field names\<close>

lemma fieldNamesRequested_None:
  "\<not> truthy_str (case p_fields params of None \<Rightarrow> None | Some fs \<Rightarrow> map_of fs (m_name m)) \<Longrightarrow>
   fieldNamesRequested m params = None"
  by (auto simp: fieldNamesRequested_def split: option.splits)

lemma fieldNamesRequested_Some:
  assumes "p_fields params = Some fs" and "map_of fs (m_name m) = Some requested"
    and "requested \<noteq> []"
  shows "\<exists>names. fieldNamesRequested m params = Some names
           \<and> set names = set (primaryKeyArray m) \<union> Some ` set (split_on CHR '','' requested)
                           \<union> Some ` set (associationsForQuery params)"
  using assms by (auto simp: fieldNamesRequested_def union_js_def set_uniq)

lemma filter_association_for_query:
  assumes "p_filter params = Some flt" and "(key, values) \<in> set flt" and "CHR '':'' \<in> set key"
  shows "takeWhile (\<lambda>x. x \<noteq> CHR '':'') key \<in> set (associationsForQuery params)"
proof -
  from assms have "hd (split_on CHR '':'' key) \<in> set (associationsForQuery params)"
    by (force simp: associationsForQuery_def)
  then show ?thesis by (simp add: hd_split_on)
qed

lemma sort_association_for_query:
  assumes "p_sort params = Some sortKey" and "CHR ''.'' \<in> set sortKey"
  shows "takeWhile (\<lambda>x. x \<noteq> CHR ''.'') sortKey \<in> set (associationsForQuery params)"
proof -
  from assms(2) have "sortKey \<noteq> []" by auto
  with assms have "hd (split_on CHR ''.'' sortKey) \<in> set (associationsForQuery params)"
    by (simp add: associationsForQuery_def)
  then show ?thesis by (simp add: hd_split_on)
qed

text \<open>
  C5, as the code has it.  When the request names no fields for the model, the computed
  names are null.  When it names some, the computed names hold the first declared
  primary key of the model (its primary key, when it has one key), every requested
  field, the association before the \<open>:\<close> of every filter key that has one, and, for a
  dotted sort key without a leading \<open>-\<close>, the association before its \<open>.\<close>.
\<close>

theorem computed_field_names:
  "(\<not> truthy_str (case p_fields params of None \<Rightarrow> None | Some fs \<Rightarrow> map_of fs (m_name m)) \<longrightarrow>
      fieldNamesRequested m params = None)
   \<and> (\<forall>fs requested.
         p_fields params = Some fs \<and> map_of fs (m_name m) = Some requested \<and> requested \<noteq> [] \<longrightarrow>
         (\<exists>names. fieldNamesRequested m params = Some names
            \<and> (\<forall>k c ks. m_primaryKeys m = (k, c) # ks \<longrightarrow> Some k \<in> set names)
            \<and> (\<forall>f \<in> set (split_on CHR '','' requested). Some f \<in> set names)
            \<and> (\<forall>flt key values.
                  p_filter params = Some flt \<and> (key, values) \<in> set flt \<and> CHR '':'' \<in> set key \<longrightarrow>
                  Some (takeWhile (\<lambda>x. x \<noteq> CHR '':'') key) \<in> set names)
            \<and> (\<forall>sortKey.
                  p_sort params = Some sortKey \<and> CHR ''.'' \<in> set sortKey
                    \<and> hd sortKey \<noteq> CHR ''-'' \<longrightarrow>
                  Some (takeWhile (\<lambda>x. x \<noteq> CHR ''.'') sortKey) \<in> set names)))"
proof (intro conjI impI allI)
  assume "\<not> truthy_str (case p_fields params of None \<Rightarrow> None | Some fs \<Rightarrow> map_of fs (m_name m))"
  then show "fieldNamesRequested m params = None"
    by (rule fieldNamesRequested_None)
next
  fix fs requested
  assume req: "p_fields params = Some fs \<and> map_of fs (m_name m) = Some requested
                 \<and> requested \<noteq> []"
  then obtain names where eq: "fieldNamesRequested m params = Some names"
    and set_names: "set names = set (primaryKeyArray m)
         \<union> Some ` set (split_on CHR '','' requested) \<union> Some ` set (associationsForQuery params)"
    using fieldNamesRequested_Some [of params fs m requested] by blast
  have pk: "\<forall>k c ks. m_primaryKeys m = (k, c) # ks \<longrightarrow> Some k \<in> set names"
    by (simp add: set_names primaryKeyArray_def)
  have rq: "\<forall>f \<in> set (split_on CHR '','' requested). Some f \<in> set names"
    by (simp add: set_names)
  have fl: "\<forall>flt key values.
      p_filter params = Some flt \<and> (key, values) \<in> set flt \<and> CHR '':'' \<in> set key \<longrightarrow>
      Some (takeWhile (\<lambda>x. x \<noteq> CHR '':'') key) \<in> set names"
    using filter_association_for_query [of params] by (auto simp: set_names)
  have so: "\<forall>sortKey.
      p_sort params = Some sortKey \<and> CHR ''.'' \<in> set sortKey \<and> hd sortKey \<noteq> CHR ''-'' \<longrightarrow>
      Some (takeWhile (\<lambda>x. x \<noteq> CHR ''.'') sortKey) \<in> set names"
    using sort_association_for_query [of params] by (auto simp: set_names)
  from eq pk rq fl so
  show "\<exists>names. fieldNamesRequested m params = Some names
            \<and> (\<forall>k c ks. m_primaryKeys m = (k, c) # ks \<longrightarrow> Some k \<in> set names)
            \<and> (\<forall>f \<in> set (split_on CHR '','' requested). Some f \<in> set names)
            \<and> (\<forall>flt key values.
                  p_filter params = Some flt \<and> (key, values) \<in> set flt \<and> CHR '':'' \<in> set key \<longrightarrow>
                  Some (takeWhile (\<lambda>x. x \<noteq> CHR '':'') key) \<in> set names)
            \<and> (\<forall>sortKey.
                  p_sort params = Some sortKey \<and> CHR ''.'' \<in> set sortKey
                    \<and> hd sortKey \<noteq> CHR ''-'' \<longrightarrow>
                  Some (takeWhile (\<lambda>x. x \<noteq> CHR ''.'') sortKey) \<in> set names)"
    by blast
qed

subsection \<open>Filter conditions\<close>

lemma valueConditions_parsed:
  "\<forall>v \<in> set vs. ovp_perform E m key v (p_timezone params) = Inr (f key v) \<Longrightarrow>
   valueConditions E m params key vs = Inr (map (\<lambda>v. JObj [(key, f key v)]) vs)"
  by (induction vs) auto

lemma filterConditions_parsed:
  "\<forall>(key, values) \<in> set flt. \<forall>v \<in> set (split_on CHR '','' values).
      ovp_perform E m (conditionKey key) v (p_timezone params) = Inr (f (conditionKey key) v) \<Longrightarrow>
   filterConditions E m params flt = Inr (elementaryConditions f flt)"
proof (induction flt)
  case Nil
  show ?case by (simp add: elementaryConditions_def)
next
  case (Cons entry flt)
  obtain k vs where entry: "entry = (k, vs)" by (cases entry)
  from Cons.prems entry
  have "valueConditions E m params (conditionKey k) (split_on CHR '','' vs)
          = Inr (map (\<lambda>v. JObj [(conditionKey k, f (conditionKey k) v)])
                   (split_on CHR '','' vs))"
    by (intro valueConditions_parsed) auto
  moreover from Cons have "filterConditions E m params flt = Inr (elementaryConditions f flt)"
    by auto
  ultimately show ?case
    by (simp add: entry elementaryConditions_def)
qed

text \<open>
  C2, as the code has it.  Each value of each key's comma-joined string gives one
  elementary condition, under the key of \<open>conditionKey\<close>; with a (truthy) filter mode
  \<open>t\<close> the filter condition is \<open>{$t: conditions}\<close>; without one it is the empty
  object, and the elementary conditions are not in it.  The parser is assumed to raise
  no error on the values of the request.
\<close>

theorem filter_where_clause:
  assumes "p_filter params = Some flt"
    and "\<forall>(key, values) \<in> set flt. \<forall>v \<in> set (split_on CHR '','' values).
           ovp_perform E m (conditionKey key) v (p_timezone params)
             = Inr (f (conditionKey key) v)"
  shows "handleFilterParams E m params =
           Inr (if truthy_str (p_filterType params)
                then JObj [(''$'' @ str_of (p_filterType params),
                            JArr (elementaryConditions f flt))]
                else JObj [])"
  using assms filterConditions_parsed [of flt E m params f]
  by (simp add: handleFilterParams_def)

lemma valueConditions_member:
  "valueConditions E m params key vs = Inr cs \<Longrightarrow> v \<in> set vs \<Longrightarrow>
   \<exists>parsed. ovp_perform E m key v (p_timezone params) = Inr parsed
              \<and> JObj [(key, parsed)] \<in> set cs"
proof (induction vs arbitrary: cs)
  case Nil
  then show ?case by simp
next
  case (Cons u us)
  from Cons.prems(1) obtain p ds where p: "ovp_perform E m key u (p_timezone params) = Inr p"
    and ds: "valueConditions E m params key us = Inr ds" and cs: "cs = JObj [(key, p)] # ds"
    by (auto split: sum.splits)
  show ?case
  proof (cases "v = u")
    case True
    with p cs show ?thesis by auto
  next
    case False
    with Cons.prems(2) have "v \<in> set us" by simp
    with Cons.IH [OF ds] cs show ?thesis by auto
  qed
qed

lemma filterConditions_member:
  "filterConditions E m params flt = Inr conds \<Longrightarrow> (key, values) \<in> set flt \<Longrightarrow>
   v \<in> set (split_on CHR '','' values) \<Longrightarrow>
   \<exists>parsed. ovp_perform E m (conditionKey key) v (p_timezone params) = Inr parsed
              \<and> JObj [(conditionKey key, parsed)] \<in> set conds"
proof (induction flt arbitrary: conds)
  case Nil
  then show ?case by simp
next
  case (Cons entry flt)
  obtain k vs where entry: "entry = (k, vs)" by (cases entry)
  from Cons.prems(1) entry obtain cs ds
    where cs: "valueConditions E m params (conditionKey k) (split_on CHR '','' vs) = Inr cs"
      and ds: "filterConditions E m params flt = Inr ds" and conds: "conds = cs @ ds"
    by (auto split: sum.splits)
  show ?case
  proof (cases "(key, values) = (k, vs)")
    case True
    with valueConditions_member [OF cs, of v] Cons.prems(3) conds show ?thesis by auto
  next
    case False
    with Cons.prems(2) entry have "(key, values) \<in> set flt" by auto
    with Cons.IH [OF ds _ Cons.prems(3)] conds show ?thesis by auto
  qed
qed

text \<open>
  C6.  For a filter key that contains \<open>:\<close>, \<open>assoc\<close> being what stands before its
  first \<open>:\<close> and \<open>rest\<close> what stands after it: among the conditions constructed, every value
  of that key has one whose key is \<open>$assoc.rest$\<close>, its value parsed under that key,
  and these conditions are the ones the where-clause holds under the filter mode; and
  whenever field names are computed (the request names fields for the model), \<open>assoc\<close>
  is among them, requested or not.
\<close>

theorem association_path_filter:
  assumes "p_filter params = Some flt" and "(key, values) \<in> set flt"
    and "CHR '':'' \<in> set key"
    and "assoc = takeWhile (\<lambda>x. x \<noteq> CHR '':'') key"
    and "rest = tl (dropWhile (\<lambda>x. x \<noteq> CHR '':'') key)"
  shows "key = assoc @ '':'' @ rest
       \<and> (\<forall>conds. filterConditions E m params flt = Inr conds \<longrightarrow>
            (\<forall>v \<in> set (split_on CHR '','' values).
                \<exists>parsed. ovp_perform E m (''$'' @ assoc @ ''.'' @ rest @ ''$'') v
                             (p_timezone params) = Inr parsed
                   \<and> JObj [(''$'' @ assoc @ ''.'' @ rest @ ''$'', parsed)] \<in> set conds)
            \<and> (truthy_str (p_filterType params) \<longrightarrow>
                 handleFilterParams E m params =
                   Inr (JObj [(''$'' @ str_of (p_filterType params), JArr conds)])))
       \<and> (\<forall>fs requested.
             p_fields params = Some fs \<and> map_of fs (m_name m) = Some requested
               \<and> requested \<noteq> [] \<longrightarrow>
             (\<exists>names. fieldNamesRequested m params = Some names \<and> Some assoc \<in> set names))"
proof (intro conjI allI impI)
  show path: "key = assoc @ '':'' @ rest"
    using first_separator [OF assms(3)] assms(4,5) by simp
  have fresh: "CHR '':'' \<notin> set assoc"
    using assms(4) by (auto dest: set_takeWhileD)
  have ck: "conditionKey key = ''$'' @ assoc @ ''.'' @ rest @ ''$''"
    using conditionKey_path [OF fresh, of rest] path by simp
  {
    fix conds
    assume conds: "filterConditions E m params flt = Inr conds"
    show "\<forall>v \<in> set (split_on CHR '','' values).
            \<exists>parsed. ovp_perform E m (''$'' @ assoc @ ''.'' @ rest @ ''$'') v
                         (p_timezone params) = Inr parsed
               \<and> JObj [(''$'' @ assoc @ ''.'' @ rest @ ''$'', parsed)] \<in> set conds"
      using filterConditions_member [OF conds assms(2)] ck by simp
  }
  {
    fix conds
    assume "filterConditions E m params flt = Inr conds"
      and "truthy_str (p_filterType params)"
    then show "handleFilterParams E m params =
                 Inr (JObj [(''$'' @ str_of (p_filterType params), JArr conds)])"
      using assms(1) by (simp add: handleFilterParams_def)
  }
  {
    fix fs requested
    assume req: "p_fields params = Some fs \<and> map_of fs (m_name m) = Some requested
                   \<and> requested \<noteq> []"
    then obtain names where eq: "fieldNamesRequested m params = Some names"
      and set_names: "set names = set (primaryKeyArray m)
           \<union> Some ` set (split_on CHR '','' requested)
           \<union> Some ` set (associationsForQuery params)"
      using fieldNamesRequested_Some [of params fs m requested] by blast
    have "assoc \<in> set (associationsForQuery params)"
      using filter_association_for_query [OF assms(1,2,3)] assms(4) by simp
    then have "Some assoc \<in> set names" by (simp add: set_names)
    with eq show "\<exists>names. fieldNamesRequested m params = Some names \<and> Some assoc \<in> set names"
      by blast
  }
qed

subsection \<open>Requests on the example inputs\<close>

lemma conditions_age:
  "filterConditions exEnv articleModel ageFilterParams [(''age'', ''18,21'')] =
     Inr [JObj [(''age'', JStr ''18'')], JObj [(''age'', JStr ''21'')]]"
  by (simp add: exEnv_def conditionKey_def)

text \<open>
  The theorem at \<open>{age: "18,21", filterType: "or"}\<close> and at the same filter without a
  mode.
\<close>

theorem filter_where_clause_witness:
  "p_filter ageOrFilterParams = Some [(''age'', ''18,21'')]
   \<and> handleFilterParams exEnv articleModel ageOrFilterParams =
       Inr (JObj [(''$or'', JArr [JObj [(''age'', JStr ''18'')], JObj [(''age'', JStr ''21'')]])])
   \<and> p_filter ageFilterParams = Some [(''age'', ''18,21'')]
   \<and> handleFilterParams exEnv articleModel ageFilterParams = Inr (JObj [])"
proof -
  have f1: "p_filter ageOrFilterParams = Some [(''age'', ''18,21'')]"
    and f2: "p_filter ageFilterParams = Some [(''age'', ''18,21'')]"
    by (simp_all add: ageOrFilterParams_def ageFilterParams_def noParams_def)
  have t1: "p_filterType ageOrFilterParams = Some ''or''"
    and t2: "p_filterType ageFilterParams = None"
    by (simp_all add: ageOrFilterParams_def ageFilterParams_def noParams_def)
  have parsed: "\<forall>(key, values) \<in> set [(''age'', ''18,21'')].
       \<forall>v \<in> set (split_on CHR '','' values).
         ovp_perform exEnv articleModel (conditionKey key) v (p_timezone ps)
           = Inr ((\<lambda>k v. JStr v) (conditionKey key) v)" for ps
    by (simp add: exEnv_def)
  have conds: "elementaryConditions (\<lambda>k v. JStr v) [(''age'', ''18,21'')] =
      [JObj [(''age'', JStr ''18'')], JObj [(''age'', JStr ''21'')]]"
    by (simp add: elementaryConditions_def conditionKey_def)
  from filter_where_clause [OF f1 parsed] t1 conds
  have "handleFilterParams exEnv articleModel ageOrFilterParams =
       Inr (JObj [(''$or'', JArr [JObj [(''age'', JStr ''18'')], JObj [(''age'', JStr ''21'')]])])"
    by simp
  moreover from filter_where_clause [OF f2 parsed] t2
  have "handleFilterParams exEnv articleModel ageFilterParams = Inr (JObj [])"
    by simp
  ultimately show ?thesis using f1 f2 by simp
qed

text \<open>
  C2 as stated fails without a filter mode: the two conditions on \<open>age\<close> are computed,
  but the filter condition returned is \<open>{}\<close> and the where-clause is
  \<open>{$and: [{}]}\<close>.
\<close>

theorem filter_without_mode_counterexample:
  "p_filter ageFilterParams = Some [(''age'', ''18,21'')]
   \<and> p_filterType ageFilterParams = None
   \<and> filterConditions exEnv articleModel ageFilterParams [(''age'', ''18,21'')] =
       Inr [JObj [(''age'', JStr ''18'')], JObj [(''age'', JStr ''21'')]]
   \<and> handleFilterParams exEnv articleModel ageFilterParams = Inr (JObj [])
   \<and> getWhere exEnv articleModel ageFilterParams
        (fieldNamesRequested articleModel ageFilterParams) JUndefined =
       Inr (JObj [(''$and'', JArr [JObj []])])"
proof -
  have f: "p_filter ageFilterParams = Some [(''age'', ''18,21'')]"
    and t: "p_filterType ageFilterParams = None"
    and s: "p_search ageFilterParams = None"
    by (simp_all add: ageFilterParams_def noParams_def)
  have h: "handleFilterParams exEnv articleModel ageFilterParams = Inr (JObj [])"
    by (simp add: handleFilterParams_def f t exEnv_def conditionKey_def)
  have "getWhere exEnv articleModel ageFilterParams
          (fieldNamesRequested articleModel ageFilterParams) JUndefined =
        Inr (JObj [(''$and'', JArr [JObj []])])"
    by (simp add: getWhere_def f s h)
  with f t h conditions_age show ?thesis by simp
qed

lemma names_authorFilterParams:
  "fieldNamesRequested articleModel authorFilterParams =
     Some [Some ''id'', Some ''title'', Some ''author'', Some ''category'']"
  by (simp add: fieldNamesRequested_def authorFilterParams_def noParams_def articleModel_def
        primaryKeyArray_def associationsForQuery_def union_js_def uniq_def)

text \<open>
  The theorem of C5 at a request for the field \<open>title\<close> of \<open>Article\<close>, filtered on
  \<open>author:name\<close> and sorted on \<open>category.label\<close>, and at a request without fields.
\<close>

theorem computed_field_names_witness:
  "p_fields authorFilterParams = Some [(''Article'', ''title'')]
   \<and> map_of [(''Article'', ''title'')] (m_name articleModel) = Some ''title''
   \<and> m_primaryKeys articleModel = [(''id'', keyColumn ''id'')]
   \<and> p_sort authorFilterParams = Some ''category.label''
   \<and> hd ''category.label'' \<noteq> CHR ''-''
   \<and> fieldNamesRequested articleModel authorFilterParams =
       Some [Some ''id'', Some ''title'', Some ''author'', Some ''category'']
   \<and> Some ''id'' \<in> set (the (fieldNamesRequested articleModel authorFilterParams))
   \<and> Some ''category'' \<in> set (the (fieldNamesRequested articleModel authorFilterParams))
   \<and> p_fields noParams = None
   \<and> fieldNamesRequested articleModel noParams = None"
proof -
  have a: "p_fields authorFilterParams = Some [(''Article'', ''title'')]"
    by (simp add: authorFilterParams_def noParams_def)
  have b: "map_of [(''Article'', ''title'')] (m_name articleModel) = Some ''title''"
    by (simp add: articleModel_def)
  have c: "m_primaryKeys articleModel = [(''id'', keyColumn ''id'')]"
    by (simp add: articleModel_def)
  have d: "p_fields noParams = None"
    by (simp add: noParams_def)
  have e: "p_sort authorFilterParams = Some ''category.label''"
    by (simp add: authorFilterParams_def noParams_def)
  have f: "CHR ''.'' \<in> set ''category.label''" and g: "hd ''category.label'' \<noteq> CHR ''-''"
    and h: "takeWhile (\<lambda>x. x \<noteq> CHR ''.'') ''category.label'' = ''category''"
    by simp_all
  note T = computed_field_names [where params = authorFilterParams and m = articleModel]
  note N = computed_field_names [where params = noParams and m = articleModel]
  from T a b obtain names where names: "fieldNamesRequested articleModel authorFilterParams = Some names"
    and pk: "\<forall>k c ks. m_primaryKeys articleModel = (k, c) # ks \<longrightarrow> Some k \<in> set names"
    and so: "\<forall>sortKey. p_sort authorFilterParams = Some sortKey \<and> CHR ''.'' \<in> set sortKey
                \<and> hd sortKey \<noteq> CHR ''-'' \<longrightarrow>
              Some (takeWhile (\<lambda>x. x \<noteq> CHR ''.'') sortKey) \<in> set names"
    by fastforce
  from pk c have "Some ''id'' \<in> set names" by blast
  moreover from so e f g h have "Some ''category'' \<in> set names" by fastforce
  ultimately have "Some ''id'' \<in> set (the (fieldNamesRequested articleModel authorFilterParams))"
    and "Some ''category'' \<in> set (the (fieldNamesRequested articleModel authorFilterParams))"
    using names by simp_all
  moreover from N d have "fieldNamesRequested articleModel noParams = None"
    by simp
  ultimately show ?thesis using a b c d e g names_authorFilterParams by simp
qed

text \<open>
  C5 as stated fails in two places.  For the model with the primary keys \<open>orderId\<close>
  and \<open>productId\<close> and a request for \<open>quantity\<close>, the computed names hold
  \<open>orderId\<close> only: the second key is not among them.  For the sort key
  \<open>-author.name\<close> the name added is \<open>-author\<close>, not the association \<open>author\<close>.
\<close>

theorem second_key_and_descending_sort_counterexample:
  "map fst (m_primaryKeys orderLineModel) = [''orderId'', ''productId'']
   \<and> p_fields quantityParams = Some [(''OrderLine'', ''quantity'')]
   \<and> fieldNamesRequested orderLineModel quantityParams
       = Some [Some ''orderId'', Some ''quantity'']
   \<and> Some ''productId'' \<notin> set [Some ''orderId'', Some ''quantity'']
   \<and> p_sort descendingSortParams = Some ''-author.name''
   \<and> fieldNamesRequested articleModel descendingSortParams
       = Some [Some ''id'', Some ''title'', Some ''-author'']
   \<and> Some ''author'' \<notin> set [Some ''id'', Some ''title'', Some ''-author'']"
proof -
  have "fieldNamesRequested orderLineModel quantityParams
       = Some [Some ''orderId'', Some ''quantity'']"
    by (simp add: fieldNamesRequested_def quantityParams_def noParams_def orderLineModel_def
          primaryKeyArray_def associationsForQuery_def union_js_def uniq_def)
  moreover have "fieldNamesRequested articleModel descendingSortParams
       = Some [Some ''id'', Some ''title'', Some ''-author'']"
    by (simp add: fieldNamesRequested_def descendingSortParams_def noParams_def
          articleModel_def primaryKeyArray_def associationsForQuery_def union_js_def uniq_def)
  moreover have "map fst (m_primaryKeys orderLineModel) = [''orderId'', ''productId'']"
    by (simp add: orderLineModel_def)
  moreover have "p_fields quantityParams = Some [(''OrderLine'', ''quantity'')]"
    and "p_sort descendingSortParams = Some ''-author.name''"
    by (simp_all add: quantityParams_def descendingSortParams_def noParams_def)
  ultimately show ?thesis by simp
qed

lemma where_authorFilterParams:
  "handleFilterParams exEnv articleModel authorFilterParams =
     Inr (JObj [(''$and'', JArr [JObj [(''$author.name$'', JStr ''Ann'')]])])"
  by (simp add: handleFilterParams_def authorFilterParams_def noParams_def exEnv_def
        conditionKey_def)

text \<open>
  The theorem at the filter key \<open>author:name\<close>, with only \<open>title\<close> requested.
\<close>

theorem association_path_filter_witness:
  "p_filter authorFilterParams = Some [(''author:name'', ''Ann'')]
   \<and> CHR '':'' \<in> set ''author:name''
   \<and> takeWhile (\<lambda>x. x \<noteq> CHR '':'') ''author:name'' = ''author''
   \<and> tl (dropWhile (\<lambda>x. x \<noteq> CHR '':'') ''author:name'') = ''name''
   \<and> handleFilterParams exEnv articleModel authorFilterParams =
       Inr (JObj [(''$and'', JArr [JObj [(''$author.name$'', JStr ''Ann'')]])])
   \<and> p_fields authorFilterParams = Some [(''Article'', ''title'')]
   \<and> ''author'' \<notin> set (split_on CHR '','' ''title'')
   \<and> Some ''author'' \<in> set (the (fieldNamesRequested articleModel authorFilterParams))"
proof -
  have a: "p_filter authorFilterParams = Some [(''author:name'', ''Ann'')]"
    and b: "p_fields authorFilterParams = Some [(''Article'', ''title'')]"
    by (simp_all add: authorFilterParams_def noParams_def)
  have c: "(''author:name'', ''Ann'') \<in> set [(''author:name'', ''Ann'')]"
    and d: "CHR '':'' \<in> set ''author:name''"
    and e: "''author'' = takeWhile (\<lambda>x. x \<noteq> CHR '':'') ''author:name''"
    and f: "''name'' = tl (dropWhile (\<lambda>x. x \<noteq> CHR '':'') ''author:name'')"
    by simp_all
  have g: "map_of [(''Article'', ''title'')] (m_name articleModel) = Some ''title''"
    by (simp add: articleModel_def)
  note T = association_path_filter [OF a c d e f, of exEnv articleModel]
  from T b g obtain names where "fieldNamesRequested articleModel authorFilterParams = Some names"
    and "Some ''author'' \<in> set names"
    by fastforce
  then have "Some ''author'' \<in> set (the (fieldNamesRequested articleModel authorFilterParams))"
    by simp
  then show ?thesis using a b d e [symmetric] f [symmetric] where_authorFilterParams by simp
qed

subsection \<open>Query options\<close>

lemma getWhere_segment:
  "getWhere E m params fnr JUndefined = Inr (JObj [(''$and'', JArr parts)]) \<Longrightarrow>
   getWhere E m params fnr sw =
     Inr (JObj [(''$and'', JArr (parts @ (if truthy sw then [sw] else [])))])"
  by (auto simp: getWhere_def Let_def split: option.splits sum.splits)

lemma getWhere_error:
  "getWhere E m params fnr sw = Inl e \<longleftrightarrow> getWhere E m params fnr JUndefined = Inl e"
  by (auto simp: getWhere_def Let_def split: option.splits sum.splits)

lemma buildOptions_where:
  "getWhere E m params (fieldNamesRequested m params) sw = Inr w \<Longrightarrow>
   buildOptions E m params sw =
     Inr (\<lparr>q_include = qb_getIncludes E m (fieldNamesRequested m params), q_where = w,
           q_order = None, q_offset = None, q_limit = None\<rparr>,
          \<lparr>q_include = qb_getIncludes E m (fieldNamesRequested m params), q_where = w,
           q_order = Some (qb_getOrder E m params),
           q_offset = Some (qb_getSkip E m params),
           q_limit = Some (qb_getLimit E m params)\<rparr>)"
  by (simp add: buildOptions_def Let_def)


subsection \<open>The trace of perform\<close>

lemma searchHooks_events:
  "searchHooks s fs co fo = (evs, r) \<Longrightarrow> \<forall>ev \<in> set evs. \<exists>msg e. ev = ErrorLogged msg e"
proof (induction fs arbitrary: co fo evs r)
  case Nil
  then show ?case by simp
next
  case (Cons f fs)
  show ?case
  proof (cases "gf_search f")
    case None
    with Cons show ?thesis by simp
  next
    case (Some h)
    obtain co' e1 where h1: "h co s = (co', e1)" by (cases "h co s")
    show ?thesis
    proof (cases e1)
      case (Some e)
      obtain evs' r' where rec: "searchHooks s fs co' fo = (evs', r')"
        by (cases "searchHooks s fs co' fo")
      with Cons.prems \<open>gf_search f = Some h\<close> h1 Some
      have "evs = ErrorLogged (''Cannot search properly on Smart Field '' @ gf_field f) e # evs'"
        by simp
      with Cons.IH [OF rec] show ?thesis by auto
    next
      case None
      obtain fo' e2 where h2: "h fo s = (fo', e2)" by (cases "h fo s")
      show ?thesis
      proof (cases e2)
        case (Some e)
        obtain evs' r' where rec: "searchHooks s fs co' fo' = (evs', r')"
          by (cases "searchHooks s fs co' fo'")
        with Cons.prems \<open>gf_search f = Some h\<close> h1 h2 Some \<open>e1 = None\<close>
        have "evs = ErrorLogged (''Cannot search properly on Smart Field '' @ gf_field f) e # evs'"
          by simp
        with Cons.IH [OF rec] show ?thesis by auto
      next
        case None
        with Cons.prems \<open>gf_search f = Some h\<close> h1 h2 \<open>e1 = None\<close>
        have "searchHooks s fs co' fo' = (evs, r)" by simp
        from Cons.IH [OF this] show ?thesis .
      qed
    qed
  qed
qed

lemma runSearchHooks_events:
  "runSearchHooks sch params co fo = (evs, r) \<Longrightarrow>
   \<forall>ev \<in> set evs. \<exists>msg e. ev = ErrorLogged msg e"
  using searchHooks_events [of "p_search params" "rs_fields sch" co fo evs r]
  by (auto simp: runSearchHooks_def split: if_splits)

lemma searchWarnings_events: "\<forall>ev \<in> set (searchWarnings sch m). \<exists>msg. ev = Warned msg"
  by (auto simp: searchWarnings_def selectSearchFields_def Let_def split: option.splits)

lemma runSearchHooks_no_search:
  "\<not> truthy_str (p_search params) \<Longrightarrow> runSearchHooks sch params co fo = ([], co, fo)"
  by (simp add: runSearchHooks_def)

lemma perform_issues:
  assumes "getSegment sch params = Inr (scope, sw0)"
    and "getSegmentCondition E params sw0 = (evs1, Resolves sw)"
    and "buildOptions E m params sw = Inr (co, fo)"
    and "runSearchHooks sch params co fo = (hookEvents, co', fo')"
  shows "perform E sch m params =
           (evs1 @ searchWarnings sch m @ hookEvents
              @ [CountIssued (scopingOf scope) co', FindAllIssued (scopingOf scope) fo'],
            spread E sch m (awaitBoth (db_count E (scopingOf scope) co')
                              (db_findAll E (scopingOf scope) fo')))"
  using assms
  by (simp add: perform_def getAndCountRecords_def spread_def
        split: promise.splits prod.splits)


lemma perform_segment_rejected:
  assumes "getSegment sch params = Inr (scope, JFun f)"
    and "call_function E f params = Rejects e"
  shows "perform E sch m params = ([SegmentWhereInvoked f params], Rejected e)"
  using assms by (simp add: perform_def getSegmentCondition_def)







text \<open>
  C7.  For a request that names a segment whose where-condition is a function \<open>f\<close>
  that resolves to \<open>r\<close>: the first thing \<open>perform\<close> does to the outside is to call
  \<open>f\<close> with the request parameters; the options of both queries are built from the
  resolved value, their where-clause being the search and filter parts followed by
  \<open>r\<close> (when \<open>r\<close> is truthy), not by the function; between the call and the two
  queries, which end the trace, there are only messages to the logger.
\<close>

theorem segment_function_resolved_first:
  assumes "getSegment sch params = Inr (scope, JFun f)"
    and "call_function E f params = Resolves r"
    and "getWhere E m params (fieldNamesRequested m params) JUndefined
           = Inr (JObj [(''$and'', JArr parts)])"
  shows "\<exists>co fo hookEvents co' fo'.
           buildOptions E m params r = Inr (co, fo)
           \<and> q_where co = JObj [(''$and'', JArr (parts @ (if truthy r then [r] else [])))]
           \<and> q_where fo = q_where co
           \<and> runSearchHooks sch params co fo = (hookEvents, co', fo')
           \<and> (\<forall>ev \<in> set (searchWarnings sch m @ hookEvents).
                 (\<exists>msg. ev = Warned msg) \<or> (\<exists>msg e. ev = ErrorLogged msg e))
           \<and> perform E sch m params =
               (SegmentWhereInvoked f params # searchWarnings sch m @ hookEvents
                  @ [CountIssued (scopingOf scope) co', FindAllIssued (scopingOf scope) fo'],
                spread E sch m (awaitBoth (db_count E (scopingOf scope) co')
                                  (db_findAll E (scopingOf scope) fo')))"
proof -
  let ?w = "JObj [(''$and'', JArr (parts @ (if truthy r then [r] else [])))]"
  let ?fnr = "fieldNamesRequested m params"
  let ?co = "\<lparr>q_include = qb_getIncludes E m ?fnr, q_where = ?w,
              q_order = None, q_offset = None, q_limit = None\<rparr>"
  let ?fo = "\<lparr>q_include = qb_getIncludes E m ?fnr, q_where = ?w,
              q_order = Some (qb_getOrder E m params),
              q_offset = Some (qb_getSkip E m params),
              q_limit = Some (qb_getLimit E m params)\<rparr>"
  have w: "getWhere E m params ?fnr r = Inr ?w"
    using assms(3) by (rule getWhere_segment)
  have built: "buildOptions E m params r = Inr (?co, ?fo)"
    using w by (rule buildOptions_where)
  obtain hookEvents co' fo' where hooks: "runSearchHooks sch params ?co ?fo = (hookEvents, co', fo')"
    by (cases "runSearchHooks sch params ?co ?fo") auto
  have cond: "getSegmentCondition E params (JFun f) = ([SegmentWhereInvoked f params], Resolves r)"
    using assms(2) by (simp add: getSegmentCondition_def)
  have logs: "\<forall>ev \<in> set (searchWarnings sch m @ hookEvents).
                 (\<exists>msg. ev = Warned msg) \<or> (\<exists>msg e. ev = ErrorLogged msg e)"
    using searchWarnings_events [of sch m] runSearchHooks_events [OF hooks] by auto
  have "perform E sch m params =
          (SegmentWhereInvoked f params # searchWarnings sch m @ hookEvents
             @ [CountIssued (scopingOf scope) co', FindAllIssued (scopingOf scope) fo'],
           spread E sch m (awaitBoth (db_count E (scopingOf scope) co')
                             (db_findAll E (scopingOf scope) fo')))"
    using perform_issues [OF assms(1) cond built hooks] by simp
  with built hooks logs show ?thesis
    by (intro exI [of _ ?co] exI [of _ ?fo] exI [of _ hookEvents] exI [of _ co']
          exI [of _ fo']) simp
qed

text \<open>
  C10.  When the request names a segment, the schema has a segments list and no segment
  of the list has that name, \<open>perform\<close> raises a TypeError and does nothing to the
  outside: no query is issued.
\<close>

theorem unknown_segment_throws:
  assumes "truthy_str (p_segment params)"
    and "rs_segments sch = Some segments"
    and "\<forall>s \<in> set segments. Some (seg_name s) \<noteq> p_segment params"
  shows "perform E sch m params = ([], Threw TypeError)"
proof -
  have "find (\<lambda>segment. Some (seg_name segment) = p_segment params) segments = None"
    using assms(3) by (simp add: find_None_iff)
  with assms(1,2) have "getSegment sch params = Inl TypeError"
    by (simp add: getSegment_def)
  then show ?thesis by (simp add: perform_def)
qed


subsection \<open>Composite primary keys of the records\<close>

lemma perform_Fulfilled:
  assumes "perform E sch m params = (evs, Fulfilled n rs)"
  shows "\<exists>sc fo fetched. FindAllIssued sc fo \<in> set evs \<and> db_findAll E sc fo = Resolves fetched
           \<and> rs = attachCompositePrimary E sch m fetched"
  using assms
  by (fastforce simp: perform_def getAndCountRecords_def awaitBoth_def spread_def
        split: sum.splits prod.splits promise.splits)

text \<open>
  C9, as the code has it.  When \<open>perform\<close> is fulfilled, its records are those the list
  query resolved to, one for one: if the schema is composite-primary, each with the
  attribute \<open>forestCompositePrimary\<close> set to what the composite-keys manager gives
  for the fetched record, every other attribute as fetched; if it is not, the records are
  the fetched ones, unchanged (so one carries a \<open>forestCompositePrimary\<close> attribute only
  if it was fetched with it).
\<close>

theorem composite_primary_attached:
  assumes "perform E sch m params = (evs, Fulfilled n rs)"
  shows "\<exists>sc fo fetched.
           FindAllIssued sc fo \<in> set evs \<and> db_findAll E sc fo = Resolves fetched
           \<and> length rs = length fetched
           \<and> (rs_isCompositePrimary sch \<longrightarrow>
                (\<forall>i < length fetched.
                   (rs ! i) ''forestCompositePrimary''
                     = Some (createCompositePrimary E m sch (fetched ! i))
                   \<and> (\<forall>k. k \<noteq> ''forestCompositePrimary'' \<longrightarrow> (rs ! i) k = (fetched ! i) k)))
           \<and> (\<not> rs_isCompositePrimary sch \<longrightarrow> rs = fetched)"
proof -
  from perform_Fulfilled [OF assms] obtain sc fo fetched
    where ev: "FindAllIssued sc fo \<in> set evs" and db: "db_findAll E sc fo = Resolves fetched"
      and rs: "rs = attachCompositePrimary E sch m fetched"
    by blast
  have "length rs = length fetched"
    by (simp add: rs attachCompositePrimary_def)
  moreover have "rs_isCompositePrimary sch \<longrightarrow>
                (\<forall>i < length fetched.
                   (rs ! i) ''forestCompositePrimary''
                     = Some (createCompositePrimary E m sch (fetched ! i))
                   \<and> (\<forall>k. k \<noteq> ''forestCompositePrimary'' \<longrightarrow> (rs ! i) k = (fetched ! i) k))"
    by (simp add: rs attachCompositePrimary_def)
  moreover have "\<not> rs_isCompositePrimary sch \<longrightarrow> rs = fetched"
    by (simp add: rs attachCompositePrimary_def)
  ultimately show ?thesis using ev db by blast
qed


subsection \<open>perform on the example inputs\<close>

lemma buildOptions_exEnv:
  "p_search ps = None \<Longrightarrow> p_filter ps = None \<Longrightarrow>
   buildOptions exEnv m ps sw =
     Inr (plainCountOpts (if truthy sw then [sw] else []),
          plainFindAllOpts (if truthy sw then [sw] else []))"
  by (simp add: buildOptions_def getWhere_def exEnv_def plainCountOpts_def
        plainFindAllOpts_def)


text \<open>
  The theorem at the segment \<open>published\<close>, whose function resolves to
  \<open>{published: true}\<close>.
\<close>

theorem segment_function_resolved_first_witness:
  "getSegment articleSchema publishedParams = Inr (None, JFun 0)
   \<and> call_function exEnv 0 publishedParams = Resolves (JObj [(''published'', JBool True)])
   \<and> getWhere exEnv articleModel publishedParams
        (fieldNamesRequested articleModel publishedParams) JUndefined
       = Inr (JObj [(''$and'', JArr [])])
   \<and> fst (perform exEnv articleSchema articleModel publishedParams) =
       [SegmentWhereInvoked 0 publishedParams,
        CountIssued Unscoped (plainCountOpts [JObj [(''published'', JBool True)]]),
        FindAllIssued Unscoped (plainFindAllOpts [JObj [(''published'', JBool True)]])]
   \<and> q_where (plainCountOpts [JObj [(''published'', JBool True)]])
       = JObj [(''$and'', JArr [JObj [(''published'', JBool True)]])]"
proof -
  have ps: "p_search publishedParams = None" "p_filter publishedParams = None"
    by (simp_all add: publishedParams_def noParams_def)
  have seg: "getSegment articleSchema publishedParams = Inr (None, JFun 0)"
    by (simp add: getSegment_def articleSchema_def publishedParams_def noParams_def
          publishedSegment_def)
  have call: "call_function exEnv 0 publishedParams = Resolves (JObj [(''published'', JBool True)])"
    by (simp add: exEnv_def)
  have wh: "getWhere exEnv articleModel publishedParams
        (fieldNamesRequested articleModel publishedParams) JUndefined
       = Inr (JObj [(''$and'', JArr [])])"
    by (simp add: getWhere_def ps)
  from segment_function_resolved_first [OF seg call wh]
  obtain co fo hookEvents co' fo'
    where built: "buildOptions exEnv articleModel publishedParams
                    (JObj [(''published'', JBool True)]) = Inr (co, fo)"
      and w: "q_where co = JObj [(''$and'', JArr [JObj [(''published'', JBool True)]])]"
      and hooks: "runSearchHooks articleSchema publishedParams co fo = (hookEvents, co', fo')"
      and run: "fst (perform exEnv articleSchema articleModel publishedParams) =
               SegmentWhereInvoked 0 publishedParams
                 # searchWarnings articleSchema articleModel @ hookEvents
                 @ [CountIssued (scopingOf None) co', FindAllIssued (scopingOf None) fo']"
    by auto
  from built buildOptions_exEnv [OF ps, of articleModel "JObj [(''published'', JBool True)]"]
  have co: "co = plainCountOpts [JObj [(''published'', JBool True)]]"
    and fo: "fo = plainFindAllOpts [JObj [(''published'', JBool True)]]"
    by simp_all
  from hooks have "hookEvents = []" "co' = co" "fo' = fo"
    by (simp_all add: runSearchHooks_def ps)
  moreover have "searchWarnings articleSchema articleModel = []"
    by (simp add: searchWarnings_def articleSchema_def)
  ultimately have "fst (perform exEnv articleSchema articleModel publishedParams) =
       [SegmentWhereInvoked 0 publishedParams,
        CountIssued Unscoped (plainCountOpts [JObj [(''published'', JBool True)]]),
        FindAllIssued Unscoped (plainFindAllOpts [JObj [(''published'', JBool True)]])]"
    using run co fo by (simp add: scopingOf_def)
  with seg call wh w co show ?thesis by simp
qed





text \<open>
  The theorem at a request for the segment \<open>archived\<close>, where only \<open>published\<close> is
  declared.
\<close>

theorem unknown_segment_throws_witness:
  "truthy_str (p_segment archivedParams)
   \<and> rs_segments articleSchema = Some [publishedSegment]
   \<and> Some (seg_name publishedSegment) \<noteq> p_segment archivedParams
   \<and> perform exEnv articleSchema articleModel archivedParams = ([], Threw TypeError)"
proof -
  have a: "truthy_str (p_segment archivedParams)"
    by (simp add: archivedParams_def noParams_def)
  have b: "rs_segments articleSchema = Some [publishedSegment]"
    by (simp add: articleSchema_def)
  have c: "Some (seg_name publishedSegment) \<noteq> p_segment archivedParams"
    by (simp add: archivedParams_def noParams_def publishedSegment_def)
  then have d: "\<forall>s \<in> set [publishedSegment]. Some (seg_name s) \<noteq> p_segment archivedParams"
    by simp
  from unknown_segment_throws [OF a b d, of exEnv articleModel] a b c show ?thesis
    by simp
qed

lemma perform_orderLine:
  "perform orderLineEnv orderLineSchema orderLineModel noParams =
     ([CountIssued Unscoped (plainCountOpts []), FindAllIssued Unscoped (plainFindAllOpts [])],
      Fulfilled 1 [[''orderId'' \<mapsto> JNum 1, ''productId'' \<mapsto> JNum 2,
                    ''forestCompositePrimary'' \<mapsto> JStr ''1-2'']])"
proof -
  have ps: "p_search noParams = None" "p_filter noParams = None"
    by (simp_all add: noParams_def)
  have seg: "getSegment orderLineSchema noParams = Inr (None, JUndefined)"
    by (simp add: getSegment_def orderLineSchema_def)
  have cond: "getSegmentCondition orderLineEnv noParams JUndefined = ([], Resolves JUndefined)"
    by (simp add: getSegmentCondition_def)
  have built: "buildOptions orderLineEnv orderLineModel noParams JUndefined
      = Inr (plainCountOpts [], plainFindAllOpts [])"
    by (simp add: buildOptions_def getWhere_def orderLineEnv_def exEnv_def plainCountOpts_def
          plainFindAllOpts_def ps)
  have hooks: "runSearchHooks orderLineSchema noParams (plainCountOpts []) (plainFindAllOpts [])
      = ([], plainCountOpts [], plainFindAllOpts [])"
    by (simp add: runSearchHooks_def ps)
  have warn: "searchWarnings orderLineSchema orderLineModel = []"
    by (simp add: searchWarnings_def orderLineSchema_def)
  have settled: "spread orderLineEnv orderLineSchema orderLineModel
        (awaitBoth (db_count orderLineEnv Unscoped (plainCountOpts []))
           (db_findAll orderLineEnv Unscoped (plainFindAllOpts [])))
      = Fulfilled 1 [[''orderId'' \<mapsto> JNum 1, ''productId'' \<mapsto> JNum 2,
                      ''forestCompositePrimary'' \<mapsto> JStr ''1-2'']]"
    by (simp add: spread_def awaitBoth_def orderLineEnv_def exEnv_def
          attachCompositePrimary_def orderLineSchema_def)
  show ?thesis
    using perform_issues [OF seg cond built hooks]
    by (simp add: warn scopingOf_def settled)
qed

lemma perform_legacy:
  "perform legacyEnv legacySchema legacyModel noParams =
     ([CountIssued Unscoped (plainCountOpts []), FindAllIssued Unscoped (plainFindAllOpts [])],
      Fulfilled 1 [[''id'' \<mapsto> JNum 1, ''forestCompositePrimary'' \<mapsto> JStr ''old'']])"
proof -
  have ps: "p_search noParams = None" "p_filter noParams = None"
    by (simp_all add: noParams_def)
  have seg: "getSegment legacySchema noParams = Inr (None, JUndefined)"
    by (simp add: getSegment_def legacySchema_def)
  have cond: "getSegmentCondition legacyEnv noParams JUndefined = ([], Resolves JUndefined)"
    by (simp add: getSegmentCondition_def)
  have built: "buildOptions legacyEnv legacyModel noParams JUndefined
      = Inr (plainCountOpts [], plainFindAllOpts [])"
    by (simp add: buildOptions_def getWhere_def legacyEnv_def exEnv_def plainCountOpts_def
          plainFindAllOpts_def ps)
  have hooks: "runSearchHooks legacySchema noParams (plainCountOpts []) (plainFindAllOpts [])
      = ([], plainCountOpts [], plainFindAllOpts [])"
    by (simp add: runSearchHooks_def ps)
  have warn: "searchWarnings legacySchema legacyModel = []"
    by (simp add: searchWarnings_def legacySchema_def)
  have settled: "spread legacyEnv legacySchema legacyModel
        (awaitBoth (db_count legacyEnv Unscoped (plainCountOpts [])) (db_findAll legacyEnv Unscoped (plainFindAllOpts [])))
      = Fulfilled 1 [[''id'' \<mapsto> JNum 1, ''forestCompositePrimary'' \<mapsto> JStr ''old'']]"
    by (simp add: spread_def awaitBoth_def legacyEnv_def exEnv_def attachCompositePrimary_def legacySchema_def)
  show ?thesis
    using perform_issues [OF seg cond built hooks]
    by (simp add: warn scopingOf_def settled)
qed

text \<open>
  The theorem at a composite-primary schema and at a schema with a single key.
\<close>

theorem composite_primary_attached_witness:
  "rs_isCompositePrimary orderLineSchema
   \<and> perform orderLineEnv orderLineSchema orderLineModel noParams =
       ([CountIssued Unscoped (plainCountOpts []), FindAllIssued Unscoped (plainFindAllOpts [])],
        Fulfilled 1 [[''orderId'' \<mapsto> JNum 1, ''productId'' \<mapsto> JNum 2,
                      ''forestCompositePrimary'' \<mapsto> JStr ''1-2'']])
   \<and> db_findAll orderLineEnv Unscoped (plainFindAllOpts [])
       = Resolves [[''orderId'' \<mapsto> JNum 1, ''productId'' \<mapsto> JNum 2]]
   \<and> createCompositePrimary orderLineEnv orderLineModel orderLineSchema
        [''orderId'' \<mapsto> JNum 1, ''productId'' \<mapsto> JNum 2] = JStr ''1-2''
   \<and> length [[''orderId'' \<mapsto> JNum 1, ''productId'' \<mapsto> JNum 2,
                ''forestCompositePrimary'' \<mapsto> JStr ''1-2'']]
       = length [[''orderId'' \<mapsto> JNum 1, ''productId'' \<mapsto> JNum (2::int)]]
   \<and> \<not> rs_isCompositePrimary legacySchema
   \<and> perform legacyEnv legacySchema legacyModel noParams =
       ([CountIssued Unscoped (plainCountOpts []), FindAllIssued Unscoped (plainFindAllOpts [])],
        Fulfilled 1 [[''id'' \<mapsto> JNum 1, ''forestCompositePrimary'' \<mapsto> JStr ''old'']])
   \<and> db_findAll legacyEnv Unscoped (plainFindAllOpts [])
       = Resolves [[''id'' \<mapsto> JNum 1, ''forestCompositePrimary'' \<mapsto> JStr ''old'']]"
proof -
  have a: "rs_isCompositePrimary orderLineSchema"
    by (simp add: orderLineSchema_def)
  have b: "\<not> rs_isCompositePrimary legacySchema"
    by (simp add: legacySchema_def)
  have c: "db_findAll orderLineEnv Unscoped (plainFindAllOpts [])
             = Resolves [[''orderId'' \<mapsto> JNum 1, ''productId'' \<mapsto> JNum 2]]"
    and d: "createCompositePrimary orderLineEnv orderLineModel orderLineSchema
              [''orderId'' \<mapsto> JNum 1, ''productId'' \<mapsto> JNum 2] = JStr ''1-2''"
    by (simp_all add: orderLineEnv_def exEnv_def)
  have e: "db_findAll legacyEnv sc opts
       = Resolves [[''id'' \<mapsto> JNum 1, ''forestCompositePrimary'' \<mapsto> JStr ''old'']]" for sc opts
    by (simp add: legacyEnv_def)
  from composite_primary_attached [OF perform_orderLine] a
  have "length [[''orderId'' \<mapsto> JNum 1, ''productId'' \<mapsto> JNum 2,
                 ''forestCompositePrimary'' \<mapsto> JStr ''1-2'']]
       = length [[''orderId'' \<mapsto> JNum 1, ''productId'' \<mapsto> JNum (2::int)]]"
    by simp
  moreover from composite_primary_attached [OF perform_legacy] b e
  have "db_findAll legacyEnv Unscoped (plainFindAllOpts [])
       = Resolves [[''id'' \<mapsto> JNum 1, ''forestCompositePrimary'' \<mapsto> JStr ''old'']]"
    by simp
  ultimately show ?thesis
    using a b c d perform_orderLine perform_legacy by simp
qed

text \<open>
  C9 as stated fails for a model with a single primary key and a column named
  \<open>forestCompositePrimary\<close>: the schema is not composite-primary, and the returned
  record carries the attribute, as fetched.
\<close>

theorem single_key_record_counterexample:
  "s_isCompositePrimary (fst (schemaBuilder allTypes exToString legacyModel)) = False
   \<and> rs_isCompositePrimary legacySchema = False
   \<and> snd (perform legacyEnv legacySchema legacyModel noParams) =
       Fulfilled 1 [[''id'' \<mapsto> JNum 1, ''forestCompositePrimary'' \<mapsto> JStr ''old'']]
   \<and> [''id'' \<mapsto> JNum 1, ''forestCompositePrimary'' \<mapsto> JStr ''old'']
        ''forestCompositePrimary'' = Some (JStr ''old'')"
proof -
  have "s_isCompositePrimary (fst (schemaBuilder allTypes exToString legacyModel)) = False"
    by (simp add: schemaBuilder_def Let_def legacyModel_def)
  moreover have "rs_isCompositePrimary legacySchema = False"
    by (simp add: legacySchema_def)
  ultimately show ?thesis
    using perform_legacy by simp
qed

end
